theory Spec2Isabelle
  imports Complex_Main "HOL-Library.Sublist"
begin

section \<open>The quick-operation dialog (dashboard-actions.js)\<close>

text \<open>
  The script keeps references to the elements of the host page and rewrites their
  properties when a menu item is chosen. The model is a record of exactly the properties
  the script reads or writes; \<open>openModal\<close> and \<open>filterCategories\<close> take the record and
  return the rewritten one.

  Elements the script tests before use (\<open>qopCategory\<close>, \<open>qopCategoryRow\<close>,
  \<open>qopOccurredAt\<close>) are optional in the record. The others are dereferenced without a
  test, so the record covers the pages that supply them.

  The literal texts of the script are Russian; each literal is one constructor below.
\<close>

datatype OperationType = INCOME | EXPENSE | TRANSFER

text \<open>The value of the \<open>data-type\<close> attribute that stands for each operation type.\<close>

fun type_name :: "OperationType \<Rightarrow> string" where
  "type_name INCOME = ''INCOME''"
| "type_name EXPENSE = ''EXPENSE''"
| "type_name TRANSFER = ''TRANSFER''"

text \<open>
  The dialog titles: the three values of the table \<open>TITLES\<close> (income, expense,
  transfer) and the fallback title "quick operation".
\<close>

datatype title_text = Title_Income | Title_Expense | Title_Transfer | Title_QuickOperation

fun TITLES :: "OperationType \<Rightarrow> title_text option" where
  "TITLES INCOME = Some Title_Income"
| "TITLES EXPENSE = Some Title_Expense"
| "TITLES TRANSFER = Some Title_Transfer"

subsection \<open>The category select\<close>

text \<open>
  An \<open>option\<close> element: its value, its text, its \<open>data-type\<close> attribute (absent on the
  "no category" entry and on the options the script creates) and its \<open>style.display\<close>.
\<close>

record option_el =
  opt_value :: string
  opt_text :: string
  opt_data_type :: "string option"
  opt_display :: string

text \<open>
  A single-choice drop-down: its options in document order and the index of the selected
  one (\<open>None\<close> is the DOM's \<open>selectedIndex = -1\<close>).
\<close>

record select_el =
  sel_options :: "option_el list"
  selectedIndex :: "nat option"

fun first_index :: "('a \<Rightarrow> bool) \<Rightarrow> 'a list \<Rightarrow> nat option" where
  "first_index P [] = None"
| "first_index P (x # xs) =
     (if P x then Some 0 else map_option Suc (first_index P xs))"

text \<open>
  Reading \<open>select.value\<close> gives the value of the selected option, or the empty string
  when none is selected. Writing it selects the first option with that value and
  deselects every other one; when no option has the value, none stays selected.
\<close>

definition get_value :: "select_el \<Rightarrow> string" where
  "get_value sel =
     (case selectedIndex sel of
        None \<Rightarrow> ''''
      | Some i \<Rightarrow> if i < length (sel_options sel) then opt_value (sel_options sel ! i) else '''')"

definition set_value :: "string \<Rightarrow> select_el \<Rightarrow> select_el" where
  "set_value v sel = sel\<lparr>selectedIndex := first_index (\<lambda>opt. opt_value opt = v) (sel_options sel)\<rparr>"

text \<open>
  When the option list of a drop-down changes and no option is selected, the browser
  selects the first one.
\<close>

definition reset_selection :: "select_el \<Rightarrow> select_el" where
  "reset_selection sel =
     (if selectedIndex sel = None \<and> sel_options sel \<noteq> []
      then sel\<lparr>selectedIndex := Some 0\<rparr> else sel)"

text \<open>\<open>select.removeChild(select.options[i])\<close> for an index in range.\<close>

definition removeChild :: "nat \<Rightarrow> select_el \<Rightarrow> select_el" where
  "removeChild i sel =
     reset_selection
       \<lparr>sel_options = take i (sel_options sel) @ drop (Suc i) (sel_options sel),
        selectedIndex =
          (case selectedIndex sel of
             None \<Rightarrow> None
           | Some j \<Rightarrow> if j = i then None else if i < j then Some (j - 1) else Some j)\<rparr>"

definition appendChild :: "option_el \<Rightarrow> select_el \<Rightarrow> select_el" where
  "appendChild opt sel = reset_selection (sel\<lparr>sel_options := sel_options sel @ [opt]\<rparr>)"

text \<open>An entry of \<open>allCategoryOptions\<close>: \<open>{value, label, type}\<close>.\<close>

record category =
  cat_value :: string
  cat_label :: string
  cat_type :: string

text \<open>
  \<open>document.createElement('option')\<close> followed by the two assignments of the rebuild
  loop: the new option has a value and a text, no \<open>data-type\<close> and no inline style.
\<close>

definition createOption :: "category \<Rightarrow> option_el" where
  "createOption cat =
     \<lparr>opt_value = cat_value cat, opt_text = cat_label cat,
      opt_data_type = None, opt_display = ''''\<rparr>"

subsection \<open>The page state\<close>

datatype hint = UpdateQopFromHint | UpdateQopToHint | UpdateQopWalletHint

datatype focus_target = Focus_qopAmount | Focus_btn | Focus_elsewhere

text \<open>
  One field for each property the script touches. The three \<open>has_\<close> fields say whether
  the page defines the optional global hint functions; \<open>hint_calls\<close> lists the calls made
  to them, in order (what the hint functions do to the page is theirs, not this script's).
  \<open>allCategoryOptions\<close> is the script's own array.
\<close>

record qop =
  menu_hidden :: bool
  btn_aria_expanded :: string
  qopType_value :: string
  qopTitle_textContent :: title_text
  walletRow_display :: string
  fromRow_display :: string
  toRow_display :: string
  qopWallet_disabled :: bool
  qopFrom_disabled :: bool
  qopTo_disabled :: bool
  qopCategoryRow :: "string option"
  qopCategory :: "select_el option"
  qopAmount_value :: string
  qopDesc_value :: string
  qopOccurredAt :: "string option"
  backdrop_qop_open :: bool
  focused :: focus_target
  has_updateQopFromHint :: bool
  has_updateQopToHint :: bool
  has_updateQopWalletHint :: bool
  hint_calls :: "hint list"
  allCategoryOptions :: "category list"

subsection \<open>The rebuild version of the script\<close>

text \<open>
  The part of \<open>init\<close> that fills \<open>allCategoryOptions\<close>: one entry for every option of the
  select that carries a \<open>data-type\<close> attribute, in document order. (\<open>init\<close> returns
  before it on a page without the wrapper or the backdrop, and then no menu item ever
  calls \<open>openModal\<close>; the rest of \<open>init\<close> registers the listeners.)
\<close>

definition category_of :: "option_el \<Rightarrow> category" where
  "category_of opt =
     \<lparr>cat_value = opt_value opt, cat_label = opt_text opt,
      cat_type = (case opt_data_type opt of Some t \<Rightarrow> t | None \<Rightarrow> '''')\<rparr>"

definition init :: "qop \<Rightarrow> qop" where
  "init s =
     (case qopCategory s of
        None \<Rightarrow> s
      | Some sel \<Rightarrow>
          s\<lparr>allCategoryOptions :=
              allCategoryOptions s @
              map category_of (filter (\<lambda>opt. opt_data_type opt \<noteq> None) (sel_options sel))\<rparr>)"

text \<open>\<open>while (qopCategory.options.length > 1) qopCategory.removeChild(qopCategory.options[1])\<close>\<close>

function remove_rest :: "select_el \<Rightarrow> select_el" where
  "remove_rest sel =
     (if 1 < length (sel_options sel) then remove_rest (removeChild 1 sel) else sel)"
  by pat_completeness auto
termination
  by (relation "measure (\<lambda>sel. length (sel_options sel))")
     (auto simp: removeChild_def reset_selection_def)

declare remove_rest.simps [simp del]

text \<open>The body of the \<open>forEach\<close> over \<open>allCategoryOptions\<close>.\<close>

definition append_matching :: "OperationType \<Rightarrow> select_el \<Rightarrow> category \<Rightarrow> select_el" where
  "append_matching ty sel cat =
     (if cat_type cat = type_name ty then appendChild (createOption cat) sel else sel)"

definition filterCategories :: "OperationType \<Rightarrow> qop \<Rightarrow> qop" where
  "filterCategories ty s =
     (case qopCategory s of
        None \<Rightarrow> s
      | Some sel \<Rightarrow>
          let isTransfer = (ty = TRANSFER);
              s1 = (case qopCategoryRow s of
                      None \<Rightarrow> s
                    | Some _ \<Rightarrow> s\<lparr>qopCategoryRow := Some (if isTransfer then ''none'' else '''')\<rparr>)
          in if isTransfer then s1\<lparr>qopCategory := Some (set_value '''' sel)\<rparr>
             else s1\<lparr>qopCategory :=
                      Some (set_value ''''
                             (foldl (append_matching ty) (remove_rest sel)
                                (allCategoryOptions s)))\<rparr>)"

text \<open>The balance hints: each hint function is called only when the page defines it.\<close>

definition call_hint :: "bool \<Rightarrow> hint \<Rightarrow> qop \<Rightarrow> qop" where
  "call_hint defined h s = (if defined then s\<lparr>hint_calls := hint_calls s @ [h]\<rparr> else s)"

definition show_hints :: "bool \<Rightarrow> qop \<Rightarrow> qop" where
  "show_hints isTransfer s =
     (if isTransfer
      then call_hint (has_updateQopToHint s) UpdateQopToHint
             (call_hint (has_updateQopFromHint s) UpdateQopFromHint s)
      else call_hint (has_updateQopWalletHint s) UpdateQopWalletHint s)"

definition openModal :: "OperationType \<Rightarrow> qop \<Rightarrow> qop" where
  "openModal ty s =
     (let isTransfer = (ty = TRANSFER);
          s1 = s\<lparr>menu_hidden := True,
                 btn_aria_expanded := ''false'',
                 qopType_value := type_name ty,
                 qopTitle_textContent :=
                   (case TITLES ty of Some t \<Rightarrow> t | None \<Rightarrow> Title_QuickOperation),
                 walletRow_display := (if isTransfer then ''none'' else ''''),
                 fromRow_display := (if isTransfer then '''' else ''none''),
                 toRow_display := (if isTransfer then '''' else ''none''),
                 qopWallet_disabled := isTransfer,
                 qopFrom_disabled := (\<not> isTransfer),
                 qopTo_disabled := (\<not> isTransfer)\<rparr>;
          s2 = filterCategories ty s1;
          s3 = s2\<lparr>qopAmount_value := '''',
                  qopDesc_value := '''',
                  qopCategory := map_option (set_value '''') (qopCategory s2),
                  qopOccurredAt := map_option (\<lambda>_. '''') (qopOccurredAt s2)\<rparr>;
          s4 = show_hints isTransfer s3
      in s4\<lparr>backdrop_qop_open := True, focused := Focus_qopAmount\<rparr>)"

definition closeModal :: "qop \<Rightarrow> qop" where
  "closeModal s = s\<lparr>backdrop_qop_open := False, focused := Focus_btn\<rparr>"

text \<open>A row is shown when its inline \<open>display\<close> is not \<open>none\<close>.\<close>

definition visible :: "string \<Rightarrow> bool" where
  "visible d = (d \<noteq> ''none'')"

subsection \<open>The visibility-toggling version of the script\<close>

text \<open>
  The earlier copy of the script keeps every option in the select and writes the
  \<open>style.display\<close> of those that carry a \<open>data-type\<close> attribute. This is the body of its
  \<open>forEach\<close>, for the option at index \<open>i\<close> (an option is \<open>selected\<close> when the select's
  index points at it).
\<close>

definition toggle_option :: "OperationType \<Rightarrow> select_el \<Rightarrow> nat \<Rightarrow> select_el" where
  "toggle_option ty sel i =
     (let opt = sel_options sel ! i;
          d = (if opt_data_type opt = Some (type_name ty) then '''' else ''none'');
          sel1 = sel\<lparr>sel_options := (sel_options sel)[i := opt\<lparr>opt_display := d\<rparr>]\<rparr>
      in if selectedIndex sel1 = Some i \<and> d = ''none'' then set_value '''' sel1 else sel1)"

text \<open>\<open>querySelectorAll('option[data-type]')\<close>: the positions of the options it returns.\<close>

definition typed_option_indices :: "select_el \<Rightarrow> nat list" where
  "typed_option_indices sel =
     filter (\<lambda>i. opt_data_type (sel_options sel ! i) \<noteq> None) [0..<length (sel_options sel)]"

definition filterCategories_old :: "OperationType \<Rightarrow> qop \<Rightarrow> qop" where
  "filterCategories_old ty s =
     (case qopCategory s of
        None \<Rightarrow> s
      | Some sel \<Rightarrow>
          let isTransfer = (ty = TRANSFER);
              s1 = (case qopCategoryRow s of
                      None \<Rightarrow> s
                    | Some _ \<Rightarrow> s\<lparr>qopCategoryRow := Some (if isTransfer then ''none'' else '''')\<rparr>)
          in if isTransfer then s1\<lparr>qopCategory := Some (set_value '''' sel)\<rparr>
             else s1\<lparr>qopCategory :=
                      Some (foldl (toggle_option ty) sel (typed_option_indices sel))\<rparr>)"

definition openModal_old :: "OperationType \<Rightarrow> qop \<Rightarrow> qop" where
  "openModal_old ty s =
     (let isTransfer = (ty = TRANSFER);
          s1 = s\<lparr>menu_hidden := True,
                 btn_aria_expanded := ''false'',
                 qopType_value := type_name ty,
                 qopTitle_textContent :=
                   (case TITLES ty of Some t \<Rightarrow> t | None \<Rightarrow> Title_QuickOperation),
                 walletRow_display := (if isTransfer then ''none'' else ''''),
                 fromRow_display := (if isTransfer then '''' else ''none''),
                 toRow_display := (if isTransfer then '''' else ''none''),
                 qopWallet_disabled := isTransfer,
                 qopFrom_disabled := (\<not> isTransfer),
                 qopTo_disabled := (\<not> isTransfer)\<rparr>;
          s2 = filterCategories_old ty s1;
          s3 = s2\<lparr>qopAmount_value := '''',
                  qopDesc_value := '''',
                  qopCategory := map_option (set_value '''') (qopCategory s2),
                  qopOccurredAt := map_option (\<lambda>_. '''') (qopOccurredAt s2)\<rparr>;
          s4 = show_hints isTransfer s3
      in s4\<lparr>backdrop_qop_open := True, focused := Focus_qopAmount\<rparr>)"

subsection \<open>What the select offers\<close>

text \<open>
  The choices a select offers, as value and text, in document order. \<open>honours_display\<close>
  says whether the browser leaves out an option styled \<open>display: none\<close>; the comments of
  the rebuild version say that mobile browsers do not.
\<close>

definition presented :: "bool \<Rightarrow> select_el \<Rightarrow> (string \<times> string) list" where
  "presented honours_display sel =
     map (\<lambda>opt. (opt_value opt, opt_text opt))
       (filter (\<lambda>opt. if honours_display then visible (opt_display opt) else True)
          (sel_options sel))"

text \<open>
  What the \<open>forEach\<close> of the toggling version makes of one option, and an option without
  its inline style.
\<close>

definition toggled :: "OperationType \<Rightarrow> option_el \<Rightarrow> option_el" where
  "toggled ty opt =
     (if opt_data_type opt = None then opt
      else opt\<lparr>opt_display :=
                 (if opt_data_type opt = Some (type_name ty) then '''' else ''none'')\<rparr>)"

definition strip_display :: "option_el \<Rightarrow> option_el" where
  "strip_display opt = opt\<lparr>opt_display := ''''\<rparr>"

definition value_and_text :: "option_el \<Rightarrow> string \<times> string" where
  "value_and_text opt = (opt_value opt, opt_text opt)"

text \<open>
  The "no category" entry is the option with the empty value, the one the script selects
  by \<open>qopCategory.value = ''\<close>. A list has it as its first and only such entry:
\<close>

fun placeholder_first :: "option_el list \<Rightarrow> bool" where
  "placeholder_first [] = False"
| "placeholder_first (opt # opts) =
     (opt_value opt = '''' \<and> list_all (\<lambda>x. opt_value x \<noteq> '''') opts)"

text \<open>The option list of the select after \<open>openModal\<close> of the rebuild version, from the list before: untouched for a transfer, else the first option and the new options of the type.\<close>

definition options_after :: "OperationType \<Rightarrow> category list \<Rightarrow> option_el list \<Rightarrow> option_el list" where
  "options_after ty cats opts =
     (if ty = TRANSFER then opts
      else take 1 opts @ map createOption (filter (\<lambda>c. cat_type c = type_name ty) cats))"

text \<open>Running a script from a page through a series of menu choices.\<close>

definition run_new :: "OperationType list \<Rightarrow> qop \<Rightarrow> qop" where
  "run_new tys p = foldl (\<lambda>s ty. openModal ty s) (init p) tys"

definition run_old :: "OperationType list \<Rightarrow> qop \<Rightarrow> qop" where
  "run_old tys p = foldl (\<lambda>s ty. openModal_old ty s) p tys"

subsection \<open>A sample page\<close>

definition no_category :: option_el where
  "no_category =
     \<lparr>opt_value = '''', opt_text = ''No category'', opt_data_type = None, opt_display = ''''\<rparr>"

definition salary :: option_el where
  "salary =
     \<lparr>opt_value = ''1'', opt_text = ''Salary'', opt_data_type = Some ''INCOME'',
      opt_display = ''''\<rparr>"

definition food :: option_el where
  "food =
     \<lparr>opt_value = ''2'', opt_text = ''Food'', opt_data_type = Some ''EXPENSE'',
      opt_display = ''''\<rparr>"

definition sample_select :: select_el where
  "sample_select = \<lparr>sel_options = [no_category, salary, food], selectedIndex = Some 2\<rparr>"

definition sample_page :: qop where
  "sample_page =
     \<lparr>menu_hidden = False, btn_aria_expanded = ''true'', qopType_value = '''',
      qopTitle_textContent = Title_QuickOperation,
      walletRow_display = '''', fromRow_display = '''', toRow_display = '''',
      qopWallet_disabled = False, qopFrom_disabled = False, qopTo_disabled = False,
      qopCategoryRow = Some '''', qopCategory = Some sample_select,
      qopAmount_value = ''10'', qopDesc_value = ''lunch'', qopOccurredAt = Some ''2026-02-13'',
      backdrop_qop_open = False, focused = Focus_btn,
      has_updateQopFromHint = True, has_updateQopToHint = True,
      has_updateQopWalletHint = False, hint_calls = [], allCategoryOptions = []\<rparr>"

section \<open>Push registration (push-register.js)\<close>

text \<open>
  The literal texts of the script, one constructor each: the three button captions
  (disable notifications, enable push notifications, notifications blocked), the status
  lines (push notifications are on, the empty line, allow them in the browser settings,
  push is not supported) and the alerts (push is not supported, the VAPID key is not
  configured, the notifications could not be connected). \<open>Txt_Page\<close> is a text the
  script did not write.
\<close>

datatype ui_text =
    Txt_DisableNotifications
  | Txt_EnablePushNotifications
  | Txt_NotificationsBlocked
  | Txt_PushEnabled
  | Txt_Empty
  | Txt_AllowInBrowserSettings
  | Txt_PushNotSupported
  | Txt_VapidKeyNotConfigured
  | Txt_CouldNotConnect
  | Txt_Page string

record button_el =
  btn_textContent :: ui_text
  btn_disabled :: bool
  btn_className :: string
  btn_cssText :: string

text \<open>
  The two elements \<open>updateUI\<close> looks up by id; either may be missing from the page. The
  status element is kept as its text. In the last branch the script sets \<open>disabled\<close>
  after the status text; the status element is another element, so the order does not
  show.
\<close>

record push_page =
  pushToggleBtn :: "button_el option"
  pushStatus :: "ui_text option"

definition set_status :: "ui_text \<Rightarrow> push_page \<Rightarrow> push_page" where
  "set_status t p = (case pushStatus p of None \<Rightarrow> p | Some _ \<Rightarrow> p\<lparr>pushStatus := Some t\<rparr>)"

definition updateUI :: "string \<Rightarrow> push_page \<Rightarrow> push_page" where
  "updateUI state p =
     (case pushToggleBtn p of
        None \<Rightarrow> p
      | Some btn \<Rightarrow>
          if state = ''subscribed'' then
            set_status Txt_PushEnabled
              (p\<lparr>pushToggleBtn :=
                   Some (btn\<lparr>btn_textContent := Txt_DisableNotifications,
                             btn_className := ''danger'',
                             btn_cssText := ''font-size:13px;padding:7px 16px;min-height:unset;''\<rparr>)\<rparr>)
          else if state = ''prompt'' then
            set_status Txt_Empty
              (p\<lparr>pushToggleBtn :=
                   Some (btn\<lparr>btn_textContent := Txt_EnablePushNotifications,
                             btn_className := '''',
                             btn_cssText := ''font-size:13px;padding:7px 16px;min-height:unset;''\<rparr>)\<rparr>)
          else if state = ''denied'' then
            set_status Txt_AllowInBrowserSettings
              (p\<lparr>pushToggleBtn :=
                   Some (btn\<lparr>btn_textContent := Txt_NotificationsBlocked,
                             btn_disabled := True,
                             btn_className := ''secondary'',
                             btn_cssText := ''font-size:13px;padding:7px 16px;min-height:unset;''\<rparr>)\<rparr>)
          else
            set_status Txt_PushNotSupported
              (p\<lparr>pushToggleBtn :=
                   Some (btn\<lparr>btn_textContent := Txt_EnablePushNotifications,
                             btn_className := '''',
                             btn_cssText := ''font-size:13px;padding:7px 16px;min-height:unset;'',
                             btn_disabled := True\<rparr>)\<rparr>))"

text \<open>A series of renders, first to last.\<close>

definition render_all :: "string list \<Rightarrow> push_page \<Rightarrow> push_page" where
  "render_all states p = foldl (\<lambda>q st. updateUI st q) p states"

subsection \<open>The platform\<close>

text \<open>
  What \<open>toJSON()\<close> of a push subscription gives, and what the script sends to the
  backend: the endpoint and the two keys (a subscription always has its \<open>keys\<close>).
\<close>

record subscription =
  endpoint :: string
  keys_p256dh :: string
  keys_auth :: string

text \<open>
  A promise of the platform is fulfilled with a value, rejected, or never settled (the
  script's own comments name both a lost registration and a \<open>ready\<close> that does not
  resolve on iOS).
\<close>

datatype 'a settled = Fulfilled 'a | Rejected | Never

datatype registration = Registration

text \<open>
  Everything the script reads from the browser and the backend during one operation:
  the two capability tests, the injected key global (\<open>None\<close> when it is undefined or
  null), the browser's \<open>atob\<close> (\<open>None\<close> where it throws), the outcome of each promise, and
  \<open>Notification.permission\<close> as the \<open>catch\<close> block reads it. The two \<open>fetch\<close> outcomes
  carry \<open>resp.ok\<close>.
\<close>

record platform =
  serviceWorker_in_navigator :: bool
  PushManager_in_window :: bool
  VAPID_PUBLIC_KEY :: "string option"
  atob :: "string \<Rightarrow> string option"
  getRegistrations_length :: "nat settled"
  register_outcome :: "registration settled"
  ready_outcome :: "registration settled"
  getSubscription_outcome :: "subscription option settled"
  pushManager_subscribe_outcome :: "subscription settled"
  sub_unsubscribe_outcome :: "bool settled"
  fetch_subscribe_outcome :: "bool settled"
  fetch_unsubscribe_outcome :: "bool settled"
  Notification_permission :: string

text \<open>What the script does to the outside, in order.\<close>

datatype event =
    Alert ui_text
  | Console_error
  | SW_getRegistrations
  | SW_register string
  | SW_ready
  | PM_getSubscription
  | PM_subscribe "nat list"
  | Sub_unsubscribe
  | Fetch string string subscription

record world =
  page :: push_page
  events :: "event list"

text \<open>An asynchronous function returns, throws, or never finishes.\<close>

datatype 'a completion = Returned 'a | Threw | Hangs

type_synonym 'a run = "'a completion \<times> world"

text \<open>\<open>await\<close> of a platform promise: the call is recorded, its outcome decides.\<close>

definition await :: "event \<Rightarrow> 'a settled \<Rightarrow> world \<Rightarrow> 'a run" where
  "await e outcome w =
     ((case outcome of Fulfilled x \<Rightarrow> Returned x | Rejected \<Rightarrow> Threw | Never \<Rightarrow> Hangs),
      w\<lparr>events := events w @ [e]\<rparr>)"

text \<open>The statements after a call run only if the call returned.\<close>

definition and_then :: "'a run \<Rightarrow> ('a \<Rightarrow> world \<Rightarrow> 'b run) \<Rightarrow> 'b run" where
  "and_then r f =
     (case r of
        (Returned x, w) \<Rightarrow> f x w
      | (Threw, w) \<Rightarrow> (Threw, w)
      | (Hangs, w) \<Rightarrow> (Hangs, w))"

definition alert :: "ui_text \<Rightarrow> world \<Rightarrow> world" where
  "alert t w = w\<lparr>events := events w @ [Alert t]\<rparr>"

definition console_error :: "world \<Rightarrow> world" where
  "console_error w = w\<lparr>events := events w @ [Console_error]\<rparr>"

definition render :: "string \<Rightarrow> world \<Rightarrow> world" where
  "render state w = w\<lparr>page := updateUI state (page w)\<rparr>"

subsection \<open>The operations\<close>

datatype js_error = TypeError | InvalidCharacterError

text \<open>
  \<open>getApplicationServerKey\<close>: \<open>null\<close> for a key that is undefined, null or empty;
  otherwise the key is padded to a multiple of four, its URL-safe characters are
  replaced, and the bytes of \<open>atob\<close>'s result are returned.
\<close>

definition replace_char :: "char \<Rightarrow> char \<Rightarrow> string \<Rightarrow> string" where
  "replace_char a b s = map (\<lambda>c. if c = a then b else c) s"

definition getApplicationServerKey :: "platform \<Rightarrow> js_error + nat list option" where
  "getApplicationServerKey env =
     (case VAPID_PUBLIC_KEY env of
        None \<Rightarrow> Inr None
      | Some key \<Rightarrow>
          if key = '''' then Inr None
          else
            let padding = replicate ((4 - length key mod 4) mod 4) CHR ''='';
                base64 = replace_char CHR ''_'' CHR ''/'' (replace_char CHR ''-'' CHR ''+'' (key @ padding))
            in case atob env base64 of
                 None \<Rightarrow> Inl InvalidCharacterError
               | Some raw \<Rightarrow> Inr (Some (map of_char raw)))"

definition getRegistration :: "platform \<Rightarrow> world \<Rightarrow> registration option run" where
  "getRegistration env w =
     (if \<not> serviceWorker_in_navigator env \<or> \<not> PushManager_in_window env then (Returned None, w)
      else
        and_then (await SW_getRegistrations (getRegistrations_length env) w) (\<lambda>regs w1.
        and_then (if regs = 0
                  then await (SW_register ''/service-worker.js'') (register_outcome env) w1
                  else (Returned Registration, w1)) (\<lambda>_ w2.
        and_then (await SW_ready (ready_outcome env) w2) (\<lambda>reg w3.
        (Returned (Some reg), w3)))))"

definition getCurrentSubscription :: "platform \<Rightarrow> world \<Rightarrow> subscription option run" where
  "getCurrentSubscription env w =
     and_then (getRegistration env w) (\<lambda>reg w1.
       case reg of
         None \<Rightarrow> (Returned None, w1)
       | Some _ \<Rightarrow> await PM_getSubscription (getSubscription_outcome env) w1)"

text \<open>The \<open>try\<close> block of \<open>subscribe\<close>.\<close>

definition subscribe_try :: "platform \<Rightarrow> nat list \<Rightarrow> world \<Rightarrow> unit run" where
  "subscribe_try env appKey w =
     and_then (await (PM_subscribe appKey) (pushManager_subscribe_outcome env) w) (\<lambda>sub w1.
     and_then (await (Fetch ''POST'' ''/api/push/subscribe'' sub) (fetch_subscribe_outcome env) w1)
       (\<lambda>ok w2. if ok then (Returned (), render ''subscribed'' w2) else (Returned (), w2)))"

text \<open>Its \<open>catch\<close> block.\<close>

definition subscribe_catch :: "platform \<Rightarrow> world \<Rightarrow> unit run" where
  "subscribe_catch env w =
     (if Notification_permission env = ''denied'' then (Returned (), render ''denied'' w)
      else (Returned (), alert Txt_CouldNotConnect (console_error w)))"

definition subscribe :: "platform \<Rightarrow> world \<Rightarrow> unit run" where
  "subscribe env w =
     and_then (getRegistration env w) (\<lambda>reg w1.
       case reg of
         None \<Rightarrow> (Returned (), alert Txt_PushNotSupported w1)
       | Some _ \<Rightarrow>
           (case getApplicationServerKey env of
              Inl _ \<Rightarrow> (Threw, w1)
            | Inr None \<Rightarrow> (Returned (), alert Txt_VapidKeyNotConfigured w1)
            | Inr (Some appKey) \<Rightarrow>
                (case subscribe_try env appKey w1 of
                   (Threw, w2) \<Rightarrow> subscribe_catch env w2
                 | r \<Rightarrow> r)))"

text \<open>
  \<open>fetch(...).catch(function() {})\<close>: a rejected request counts as returned.
\<close>

definition swallow :: "'a run \<Rightarrow> unit run" where
  "swallow r =
     (case r of
        (Returned _, w) \<Rightarrow> (Returned (), w)
      | (Threw, w) \<Rightarrow> (Returned (), w)
      | (Hangs, w) \<Rightarrow> (Hangs, w))"

definition unsubscribe :: "platform \<Rightarrow> world \<Rightarrow> unit run" where
  "unsubscribe env w =
     and_then (getCurrentSubscription env w) (\<lambda>sub w1.
       case sub of
         None \<Rightarrow> (Returned (), render ''prompt'' w1)
       | Some json \<Rightarrow>
           and_then (await Sub_unsubscribe (sub_unsubscribe_outcome env) w1) (\<lambda>_ w2.
           and_then (swallow (await (Fetch ''DELETE'' ''/api/push/unsubscribe'' json)
                                (fetch_unsubscribe_outcome env) w2)) (\<lambda>_ w3.
           (Returned (), render ''prompt'' w3))))"

text \<open>
  Parts of the record of events that the properties speak about, and the platform calls
  of \<open>getRegistration\<close>.
\<close>

definition lookup_events :: "event set" where
  "lookup_events = {SW_getRegistrations, SW_register ''/service-worker.js'', SW_ready}"

fun is_alert :: "event \<Rightarrow> bool" where
  "is_alert (Alert _) = True"
| "is_alert _ = False"

fun is_push_subscribe :: "event \<Rightarrow> bool" where
  "is_push_subscribe (PM_subscribe _) = True"
| "is_push_subscribe _ = False"

fun is_fetch :: "event \<Rightarrow> bool" where
  "is_fetch (Fetch _ _ _) = True"
| "is_fetch _ = False"

subsection \<open>A sample browser\<close>

definition sample_button :: button_el where
  "sample_button =
     \<lparr>btn_textContent = Txt_Page ''...'', btn_disabled = False, btn_className = ''secondary'',
      btn_cssText = ''''\<rparr>"

definition sample_push_page :: push_page where
  "sample_push_page = \<lparr>pushToggleBtn = Some sample_button, pushStatus = Some (Txt_Page '''')\<rparr>"

definition sample_world :: world where
  "sample_world = \<lparr>page = sample_push_page, events = []\<rparr>"

definition sample_subscription :: subscription where
  "sample_subscription =
     \<lparr>endpoint = ''https://push.example/e1'', keys_p256dh = ''BPk'', keys_auth = ''a1''\<rparr>"

text \<open>
  A browser with push support, a registered worker, a live subscription, permission
  granted, and a backend that answers every request with a 2xx status. Its \<open>atob\<close> is
  given at the one string the sample key leads to, \<open>BEl6\<close>, which decodes to the bytes
  4, 73, 122.
\<close>

definition sample_platform :: platform where
  "sample_platform =
     \<lparr>serviceWorker_in_navigator = True, PushManager_in_window = True,
      VAPID_PUBLIC_KEY = Some ''BEl6'',
      atob = (\<lambda>s. if s = ''BEl6'' then Some [CHR 0x04, CHR ''I'', CHR ''z''] else None),
      getRegistrations_length = Fulfilled 1,
      register_outcome = Fulfilled Registration,
      ready_outcome = Fulfilled Registration,
      getSubscription_outcome = Fulfilled (Some sample_subscription),
      pushManager_subscribe_outcome = Fulfilled sample_subscription,
      sub_unsubscribe_outcome = Fulfilled True,
      fetch_subscribe_outcome = Fulfilled True,
      fetch_unsubscribe_outcome = Fulfilled True,
      Notification_permission = ''granted''\<rparr>"

text \<open>The same browser before it has subscribed.\<close>

definition not_subscribed :: platform where
  "not_subscribed = sample_platform\<lparr>getSubscription_outcome := Fulfilled None\<rparr>"

text \<open>... with a backend that answers the POST with a status outside 2xx.\<close>

definition backend_refuses :: platform where
  "backend_refuses = not_subscribed\<lparr>fetch_subscribe_outcome := Fulfilled False\<rparr>"

text \<open>... with a page that injects no key.\<close>

definition no_key :: platform where
  "no_key = not_subscribed\<lparr>VAPID_PUBLIC_KEY := None\<rparr>"

text \<open>... with no key, and a registration lookup that is rejected.\<close>

definition no_key_lookup_fails :: platform where
  "no_key_lookup_fails = no_key\<lparr>getRegistrations_length := Rejected\<rparr>"

text \<open>The subscribed browser, when the push service rejects the revocation.\<close>

definition revocation_fails :: platform where
  "revocation_fails = sample_platform\<lparr>sub_unsubscribe_outcome := Rejected\<rparr>"

section \<open>The service worker (service-worker.js)\<close>

subsection \<open>Push events\<close>

text \<open>
  A JavaScript value as \<open>JSON.parse\<close> can produce it, with \<open>undefined\<close> for a missing
  property. An object is the list of its properties.
\<close>

datatype jsval =
    Undefined
  | JNull
  | JBool bool
  | JNum rat
  | JStr string
  | JArr "jsval list"
  | JObj "(string \<times> jsval) list"

fun truthy :: "jsval \<Rightarrow> bool" where
  "truthy Undefined = False"
| "truthy JNull = False"
| "truthy (JBool b) = b"
| "truthy (JNum x) = (x \<noteq> 0)"
| "truthy (JStr s) = (s \<noteq> '''')"
| "truthy (JArr _) = True"
| "truthy (JObj _) = True"

text \<open>\<open>a || b\<close>\<close>

definition or_else :: "jsval \<Rightarrow> jsval \<Rightarrow> jsval" where
  "or_else a b = (if truthy a then a else b)"

text \<open>
  Reading one of the properties \<open>title\<close>, \<open>body\<close>, \<open>url\<close>: a TypeError on \<open>null\<close> and
  \<open>undefined\<close>, the property of an object, \<open>undefined\<close> on every other value.
\<close>

fun get_property :: "string \<Rightarrow> jsval \<Rightarrow> js_error + jsval" where
  "get_property k Undefined = Inl TypeError"
| "get_property k JNull = Inl TypeError"
| "get_property k (JObj kvs) = Inr (case map_of kvs k of Some v \<Rightarrow> v | None \<Rightarrow> Undefined)"
| "get_property k _ = Inr Undefined"

text \<open>
  The payload of a push event: its text, and what \<open>json()\<close> gives (\<open>None\<close> when it
  throws because the text is not JSON).
\<close>

record push_data =
  pd_text :: string
  pd_json :: "jsval option"

record notification =
  n_title :: jsval
  n_body :: jsval
  n_icon :: string
  n_badge :: string
  n_data_url :: jsval

text \<open>
  The \<open>push\<close> listener, given \<open>event.data\<close>: the notification it shows, \<open>None\<close> when it
  returns without showing one, or the error it throws.
\<close>

definition push :: "push_data option \<Rightarrow> js_error + notification option" where
  "push event_data =
     (case event_data of
        None \<Rightarrow> Inr None
      | Some d \<Rightarrow>
          let data = (case pd_json d of
                        Some v \<Rightarrow> v
                      | None \<Rightarrow> JObj [(''title'', JStr ''FinLife''), (''body'', JStr (pd_text d)),
                                      (''url'', JStr ''/'')])
          in case get_property ''title'' data of
               Inl e \<Rightarrow> Inl e
             | Inr title \<Rightarrow>
                 (case get_property ''body'' data of
                    Inl e \<Rightarrow> Inl e
                  | Inr body \<Rightarrow>
                      (case get_property ''url'' data of
                         Inl e \<Rightarrow> Inl e
                       | Inr url \<Rightarrow>
                           Inr (Some \<lparr>n_title = or_else title (JStr ''FinLife''),
                                      n_body = or_else body (JStr ''''),
                                      n_icon = ''/static/icons/icon-192.svg'',
                                      n_badge = ''/static/icons/icon-192.svg'',
                                      n_data_url = or_else url (JStr ''/'')\<rparr>))))"

subsection \<open>Notification clicks\<close>

text \<open>\<open>s.indexOf(pat)\<close>: the first position where \<open>pat\<close> starts in \<open>s\<close>, or \<open>-1\<close>.\<close>

fun index_from :: "nat \<Rightarrow> string \<Rightarrow> string \<Rightarrow> int" where
  "index_from i [] pat = (if pat = [] then int i else - 1)"
| "index_from i (c # cs) pat =
     (if prefix pat (c # cs) then int i else index_from (Suc i) cs pat)"

definition indexOf :: "string \<Rightarrow> string \<Rightarrow> int" where
  "indexOf s pat = index_from 0 s pat"

text \<open>An open window: its URL, and whether it has a \<open>focus\<close> method.\<close>

record window_client =
  client_url :: string
  focus_in_client :: bool

text \<open>
  \<open>event.notification.data\<close> (\<open>None\<close> when the notification carries none) with its \<open>url\<close>
  (\<open>None\<close> when the data has none); the click listener's URLs are strings.
\<close>

record notification_data =
  nd_url :: "string option"

datatype sw_effect = Notification_close | Client_focus nat | Clients_openWindow string

definition target_url :: "notification_data option \<Rightarrow> string" where
  "target_url data =
     (case data of
        None \<Rightarrow> ''/''
      | Some d \<Rightarrow> (case nd_url d of None \<Rightarrow> ''/'' | Some u \<Rightarrow> if u = '''' then ''/'' else u))"

text \<open>The test of the loop body.\<close>

definition matches :: "string \<Rightarrow> window_client \<Rightarrow> bool" where
  "matches url client = (indexOf (client_url client) url \<noteq> - 1 \<and> focus_in_client client)"

text \<open>The loop over \<open>windowClients\<close> from index \<open>i\<close>, and the statement after it.\<close>

fun focus_or_open :: "string \<Rightarrow> nat \<Rightarrow> window_client list \<Rightarrow> sw_effect" where
  "focus_or_open url i [] = Clients_openWindow url"
| "focus_or_open url i (client # rest) =
     (if matches url client then Client_focus i else focus_or_open url (Suc i) rest)"

definition notificationclick :: "notification_data option \<Rightarrow> window_client list \<Rightarrow> sw_effect list" where
  "notificationclick data windowClients =
     [Notification_close, focus_or_open (target_url data) 0 windowClients]"

fun is_openWindow :: "sw_effect \<Rightarrow> bool" where
  "is_openWindow (Clients_openWindow _) = True"
| "is_openWindow _ = False"

fun is_focus :: "sw_effect \<Rightarrow> bool" where
  "is_focus (Client_focus _) = True"
| "is_focus _ = False"

subsection \<open>Sample events\<close>

definition hello :: push_data where
  "hello = \<lparr>pd_text = ''Hello'', pd_json = None\<rparr>"

definition sample_clients :: "window_client list" where
  "sample_clients =
     [\<lparr>client_url = ''https://finlife.example/budget'', focus_in_client = True\<rparr>,
      \<lparr>client_url = ''https://finlife.example/tasks'', focus_in_client = True\<rparr>,
      \<lparr>client_url = ''https://finlife.example/tasks?day=1'', focus_in_client = True\<rparr>]"

definition tasks_data :: notification_data where
  "tasks_data = \<lparr>nd_url = Some ''/tasks''\<rparr>"

section \<open>Properties of the quick-operation dialog\<close>

lemma show_hints_frame [simp]:
  "qopCategory (show_hints b s) = qopCategory s"
  "qopCategoryRow (show_hints b s) = qopCategoryRow s"
  "walletRow_display (show_hints b s) = walletRow_display s"
  "fromRow_display (show_hints b s) = fromRow_display s"
  "toRow_display (show_hints b s) = toRow_display s"
  "allCategoryOptions (show_hints b s) = allCategoryOptions s"
  by (simp_all add: show_hints_def call_hint_def)

lemma filterCategories_frame [simp]:
  "walletRow_display (filterCategories ty s) = walletRow_display s"
  "fromRow_display (filterCategories ty s) = fromRow_display s"
  "toRow_display (filterCategories ty s) = toRow_display s"
  "allCategoryOptions (filterCategories ty s) = allCategoryOptions s"
  by (simp_all add: filterCategories_def Let_def split: option.splits)

lemma filterCategories_row:
  "qopCategory s = Some sel \<Longrightarrow> qopCategoryRow s = Some d \<Longrightarrow>
   qopCategoryRow (filterCategories ty s) = Some (if ty = TRANSFER then ''none'' else '''')"
  by (simp add: filterCategories_def Let_def)

lemma openModal_wallet_rows:
  "walletRow_display (openModal ty s) = (if ty = TRANSFER then ''none'' else '''')"
  "fromRow_display (openModal ty s) = (if ty = TRANSFER then '''' else ''none'')"
  "toRow_display (openModal ty s) = (if ty = TRANSFER then '''' else ''none'')"
  by (simp_all add: openModal_def Let_def)

lemma openModal_category_row:
  "qopCategory s = Some sel \<Longrightarrow> qopCategoryRow s = Some d \<Longrightarrow>
   qopCategoryRow (openModal ty s) = Some (if ty = TRANSFER then ''none'' else '''')"
  by (simp add: openModal_def Let_def filterCategories_row)

lemma openModal_catalog [simp]:
  "allCategoryOptions (openModal ty s) = allCategoryOptions s"
  by (simp add: openModal_def Let_def)

text \<open>
  Claim C1. On a page that has the category select and the category row, \<open>openModal\<close>
  yields the documented visibility for each of the three operation types: for a transfer
  the from-wallet and to-wallet rows are shown and the single-wallet row and the category
  row are hidden; for an income or an expense the single-wallet row and the category row
  are shown and the from-wallet and to-wallet rows are hidden.
\<close>

theorem openModal_field_visibility:
  assumes "qopCategory s = Some sel" and "qopCategoryRow s = Some d"
  shows "visible (fromRow_display (openModal ty s)) = (ty = TRANSFER) \<and>
         visible (toRow_display (openModal ty s)) = (ty = TRANSFER) \<and>
         visible (walletRow_display (openModal ty s)) = (ty \<noteq> TRANSFER) \<and>
         map_option visible (qopCategoryRow (openModal ty s)) = Some (ty \<noteq> TRANSFER)"
  using openModal_category_row [OF assms, of ty]
  by (simp add: openModal_wallet_rows visible_def)

theorem openModal_field_visibility_witness:
  "visible (fromRow_display (openModal TRANSFER sample_page)) \<and>
   visible (toRow_display (openModal TRANSFER sample_page)) \<and>
   \<not> visible (walletRow_display (openModal TRANSFER sample_page)) \<and>
   map_option visible (qopCategoryRow (openModal TRANSFER sample_page)) = Some False \<and>
   \<not> visible (fromRow_display (openModal EXPENSE sample_page)) \<and>
   \<not> visible (toRow_display (openModal EXPENSE sample_page)) \<and>
   visible (walletRow_display (openModal EXPENSE sample_page)) \<and>
   map_option visible (qopCategoryRow (openModal EXPENSE sample_page)) = Some True"
  using openModal_field_visibility [of sample_page sample_select "''''" TRANSFER]
    openModal_field_visibility [of sample_page sample_select "''''" EXPENSE]
  by (simp add: sample_page_def)

subsection \<open>The rebuilt option list\<close>

lemma remove_rest_options: "sel_options (remove_rest sel) = take 1 (sel_options sel)"
proof (induction sel rule: remove_rest.induct)
  case (1 sel)
  show ?case
  proof (cases "1 < length (sel_options sel)")
    case True
    have "sel_options (removeChild 1 sel) = take 1 (sel_options sel) @ drop 2 (sel_options sel)"
      by (simp add: removeChild_def reset_selection_def numeral_2_eq_2)
    moreover from True have "take 1 (take 1 (sel_options sel) @ drop 2 (sel_options sel)) =
        take 1 (sel_options sel)"
      by (cases "sel_options sel") auto
    ultimately show ?thesis
      using True "1.IH" by (subst remove_rest.simps) simp
  next
    case False
    then have "take 1 (sel_options sel) = sel_options sel"
      by (cases "sel_options sel") auto
    with False show ?thesis
      by (subst remove_rest.simps) simp
  qed
qed

lemma append_matching_options:
  "sel_options (foldl (append_matching ty) sel cats) =
   sel_options sel @ map createOption (filter (\<lambda>c. cat_type c = type_name ty) cats)"
  by (induction cats arbitrary: sel)
     (auto simp: append_matching_def appendChild_def reset_selection_def)

lemma set_value_fields [simp]:
  "sel_options (set_value v sel) = sel_options sel"
  "selectedIndex (set_value v sel) = first_index (\<lambda>opt. opt_value opt = v) (sel_options sel)"
  by (simp_all add: set_value_def)

lemma filterCategories_select:
  assumes "qopCategory s = Some sel"
  shows "\<exists>sel'. qopCategory (filterCategories ty s) = Some sel' \<and>
           sel_options sel' = options_after ty (allCategoryOptions s) (sel_options sel) \<and>
           selectedIndex sel' = first_index (\<lambda>opt. opt_value opt = '''') (sel_options sel')"
  using assms
  by (auto simp: filterCategories_def Let_def options_after_def append_matching_options
      remove_rest_options split: option.splits)

lemma openModal_select:
  assumes "qopCategory s = Some sel"
  shows "\<exists>sel'. qopCategory (openModal ty s) = Some sel' \<and>
           sel_options sel' = options_after ty (allCategoryOptions s) (sel_options sel) \<and>
           selectedIndex sel' = first_index (\<lambda>opt. opt_value opt = '''') (sel_options sel')"
proof -
  let ?s1 = "s\<lparr>menu_hidden := True,
                 btn_aria_expanded := ''false'',
                 qopType_value := type_name ty,
                 qopTitle_textContent :=
                   (case TITLES ty of Some t \<Rightarrow> t | None \<Rightarrow> Title_QuickOperation),
                 walletRow_display := (if ty = TRANSFER then ''none'' else ''''),
                 fromRow_display := (if ty = TRANSFER then '''' else ''none''),
                 toRow_display := (if ty = TRANSFER then '''' else ''none''),
                 qopWallet_disabled := (ty = TRANSFER),
                 qopFrom_disabled := (\<not> ty = TRANSFER),
                 qopTo_disabled := (\<not> ty = TRANSFER)\<rparr>"
  have "qopCategory ?s1 = Some sel" "allCategoryOptions ?s1 = allCategoryOptions s"
    using assms by simp_all
  with filterCategories_select [of ?s1 sel ty]
  obtain sel' where sel': "qopCategory (filterCategories ty ?s1) = Some sel'"
    "sel_options sel' = options_after ty (allCategoryOptions s) (sel_options sel)"
    "selectedIndex sel' = first_index (\<lambda>opt. opt_value opt = '''') (sel_options sel')"
    by auto
  have "qopCategory (openModal ty s) = Some (set_value '''' sel')"
    using sel'(1) by (simp add: openModal_def Let_def)
  then show ?thesis using sel'(2) by simp
qed

lemma select_eqI:
  "sel_options a = sel_options b \<Longrightarrow> selectedIndex a = selectedIndex b \<Longrightarrow> a = (b :: select_el)"
  by simp

lemma options_after_twice:
  "opts \<noteq> [] \<Longrightarrow> options_after ty cats (options_after ty cats opts) = options_after ty cats opts"
  by (cases opts) (simp_all add: options_after_def)

lemma openModal_twice_select:
  assumes "qopCategory s = Some sel" and "sel_options sel \<noteq> []"
  shows "qopCategory (openModal ty (openModal ty s)) = qopCategory (openModal ty s)"
proof -
  from openModal_select [OF assms(1), of ty] obtain sel1 where
    sel1: "qopCategory (openModal ty s) = Some sel1"
      "sel_options sel1 = options_after ty (allCategoryOptions s) (sel_options sel)"
      "selectedIndex sel1 = first_index (\<lambda>opt. opt_value opt = '''') (sel_options sel1)"
    by blast
  from openModal_select [OF sel1(1), of ty] obtain sel2 where
    sel2: "qopCategory (openModal ty (openModal ty s)) = Some sel2"
      "sel_options sel2 = options_after ty (allCategoryOptions s) (sel_options sel1)"
      "selectedIndex sel2 = first_index (\<lambda>opt. opt_value opt = '''') (sel_options sel2)"
    by auto
  have "sel_options sel2 = sel_options sel1"
    using sel1(2) sel2(2) options_after_twice [OF assms(2)] by simp
  with sel1(3) sel2(3) have "sel2 = sel1"
    by (intro select_eqI) simp_all
  with sel1(1) sel2(1) show ?thesis by simp
qed

lemma options_after_Cons:
  "options_after ty cats (ph # rest) =
     ph # (if ty = TRANSFER then rest
           else map createOption (filter (\<lambda>c. cat_type c = type_name ty) cats))"
  by (simp add: options_after_def)

text \<open>
  Claim C2. On a page that has the category select and row, with the "no category" entry
  (the option with the empty value) first in the select: after \<open>openModal\<close> the selection
  is on that entry and the select's value is empty, whatever was selected before; for a
  transfer the category row is hidden; for an income or an expense the select holds the
  "no category" entry followed by exactly the catalog entries of that type.
\<close>

theorem openModal_category_selection:
  assumes "qopCategory s = Some sel" and "qopCategoryRow s = Some d"
    and "sel_options sel = ph # rest" and "opt_value ph = ''''"
  shows "\<exists>sel'. qopCategory (openModal ty s) = Some sel' \<and>
           selectedIndex sel' = Some 0 \<and> get_value sel' = '''' \<and>
           (if ty = TRANSFER
            then qopCategoryRow (openModal ty s) = Some ''none'' \<and> sel_options sel' = ph # rest
            else qopCategoryRow (openModal ty s) = Some '''' \<and>
                 sel_options sel' =
                   ph # map createOption
                          (filter (\<lambda>c. cat_type c = type_name ty) (allCategoryOptions s)))"
proof -
  from openModal_select [OF assms(1), of ty] obtain sel' where
    sel': "qopCategory (openModal ty s) = Some sel'"
      "sel_options sel' = options_after ty (allCategoryOptions s) (sel_options sel)"
      "selectedIndex sel' = first_index (\<lambda>opt. opt_value opt = '''') (sel_options sel')"
    by blast
  have opts: "sel_options sel' =
      ph # (if ty = TRANSFER then rest
            else map createOption (filter (\<lambda>c. cat_type c = type_name ty) (allCategoryOptions s)))"
    using sel'(2) assms(3) by (simp add: options_after_Cons)
  have idx: "selectedIndex sel' = Some 0"
    using sel'(3) opts assms(4) by simp
  have val: "get_value sel' = ''''"
    using idx opts assms(4) by (simp add: get_value_def)
  show ?thesis
    using sel'(1) idx val opts openModal_category_row [OF assms(1,2), of ty]
    by (cases "ty = TRANSFER") simp_all
qed

theorem openModal_category_selection_witness:
  "qopCategory (openModal TRANSFER sample_page) =
     Some \<lparr>sel_options = [no_category, salary, food], selectedIndex = Some 0\<rparr> \<and>
   qopCategoryRow (openModal TRANSFER sample_page) = Some ''none'' \<and>
   qopCategory (openModal INCOME (init sample_page)) =
     Some \<lparr>sel_options = [no_category, salary\<lparr>opt_data_type := None\<rparr>], selectedIndex = Some 0\<rparr> \<and>
   qopCategoryRow (openModal INCOME (init sample_page)) = Some ''''"
proof -
  have p: "qopCategory sample_page = Some sample_select" "qopCategoryRow sample_page = Some ''''"
    "sel_options sample_select = no_category # [salary, food]" "opt_value no_category = ''''"
    by (simp_all add: sample_page_def sample_select_def no_category_def)
  have q: "qopCategory (init sample_page) = Some sample_select"
    "qopCategoryRow (init sample_page) = Some ''''"
    by (simp_all add: init_def sample_page_def)
  have cats: "filter (\<lambda>c. cat_type c = type_name INCOME) (allCategoryOptions (init sample_page)) =
      [category_of salary]"
    by (simp add: init_def sample_page_def sample_select_def no_category_def salary_def food_def
        category_of_def)
  have mk: "createOption (category_of salary) = salary\<lparr>opt_data_type := None\<rparr>"
    by (simp add: createOption_def category_of_def salary_def)
  from openModal_category_selection [OF p, of TRANSFER]
  have a: "qopCategory (openModal TRANSFER sample_page) =
        Some \<lparr>sel_options = [no_category, salary, food], selectedIndex = Some 0\<rparr>"
      "qopCategoryRow (openModal TRANSFER sample_page) = Some ''none''"
    by auto
  from openModal_category_selection [OF q p(3,4), of INCOME]
  have b: "qopCategory (openModal INCOME (init sample_page)) =
        Some \<lparr>sel_options = [no_category, salary\<lparr>opt_data_type := None\<rparr>], selectedIndex = Some 0\<rparr>"
      "qopCategoryRow (openModal INCOME (init sample_page)) = Some ''''"
    using cats by (auto simp: mk)
  from a b show ?thesis by simp
qed

lemma placeholder_first_after:
  assumes "placeholder_first opts" and "list_all (\<lambda>c. cat_value c \<noteq> '''') cats"
  shows "placeholder_first (options_after ty cats opts) \<and>
         hd (options_after ty cats opts) = hd opts"
proof (cases opts)
  case Nil
  with assms(1) show ?thesis by simp
next
  case (Cons ph rest)
  have "list_all (\<lambda>x. opt_value x \<noteq> '''')
          (map createOption (filter (\<lambda>c. cat_type c = type_name ty) cats))"
    using assms(2) by (induction cats) (auto simp: createOption_def)
  with assms(1) Cons show ?thesis
    by (simp add: options_after_Cons)
qed

text \<open>
  Claim C3. On a page whose select has the "no category" entry first and no other entry
  with the empty value, and a catalog whose entries have values: calling \<open>openModal\<close>
  twice with the same type leaves the select as one call leaves it, and after the call
  the select still has the "no category" entry first and no other like it.
\<close>

theorem openModal_rebuild_idempotent:
  assumes "qopCategory s = Some sel" and "placeholder_first (sel_options sel)"
    and "list_all (\<lambda>c. cat_value c \<noteq> '''') (allCategoryOptions s)"
  shows "qopCategory (openModal ty (openModal ty s)) = qopCategory (openModal ty s) \<and>
         (\<exists>sel1. qopCategory (openModal ty s) = Some sel1 \<and>
            placeholder_first (sel_options sel1) \<and>
            hd (sel_options sel1) = hd (sel_options sel))"
proof -
  from assms(2) have ne: "sel_options sel \<noteq> []" by auto
  from openModal_select [OF assms(1), of ty] obtain sel1 where
    sel1: "qopCategory (openModal ty s) = Some sel1"
      "sel_options sel1 = options_after ty (allCategoryOptions s) (sel_options sel)"
    by blast
  with placeholder_first_after [OF assms(2,3), of ty]
  have "placeholder_first (sel_options sel1) \<and> hd (sel_options sel1) = hd (sel_options sel)"
    by simp
  with sel1(1) openModal_twice_select [OF assms(1) ne, of ty] show ?thesis by simp
qed

theorem openModal_rebuild_idempotent_witness:
  "qopCategory (openModal EXPENSE (openModal EXPENSE (init sample_page))) =
     qopCategory (openModal EXPENSE (init sample_page)) \<and>
   (\<exists>sel1. qopCategory (openModal EXPENSE (init sample_page)) = Some sel1 \<and>
      placeholder_first (sel_options sel1) \<and> hd (sel_options sel1) = no_category)"
proof -
  have "qopCategory (init sample_page) = Some sample_select"
    by (simp add: init_def sample_page_def)
  moreover have "placeholder_first (sel_options sample_select)"
    by (simp add: sample_select_def no_category_def salary_def food_def)
  moreover have "list_all (\<lambda>c. cat_value c \<noteq> '''') (allCategoryOptions (init sample_page))"
    by (simp add: init_def sample_page_def sample_select_def no_category_def salary_def food_def
        category_of_def)
  ultimately show ?thesis
    using openModal_rebuild_idempotent [of "init sample_page" sample_select EXPENSE]
    by (simp add: sample_select_def)
qed

subsection \<open>The two versions side by side\<close>

lemma first_index_Some:
  "first_index P xs = Some i \<Longrightarrow> i < length xs \<and> P (xs ! i)"
proof (induction xs arbitrary: i)
  case Nil
  then show ?case by simp
next
  case (Cons x xs)
  show ?case
  proof (cases "P x")
    case True
    with Cons.prems show ?thesis by simp
  next
    case False
    with Cons.prems obtain j where j: "first_index P xs = Some j" "i = Suc j"
      by auto
    from Cons.IH [OF j(1)] j(2) show ?thesis by simp
  qed
qed

lemma get_value_set_value [simp]: "get_value (set_value '''' sel) = ''''"
proof (cases "first_index (\<lambda>opt. opt_value opt = '''') (sel_options sel)")
  case None
  then show ?thesis by (simp add: get_value_def)
next
  case (Some i)
  from first_index_Some [OF this] Some show ?thesis
    by (simp add: get_value_def)
qed

lemma toggle_option_options:
  "sel_options (toggle_option ty sel i) =
     (sel_options sel)[i := (sel_options sel ! i)\<lparr>opt_display :=
        (if opt_data_type (sel_options sel ! i) = Some (type_name ty) then '''' else ''none'')\<rparr>]"
  by (simp add: toggle_option_def Let_def)

lemma foldl_toggle_nth:
  "length (sel_options (foldl (toggle_option ty) sel js)) = length (sel_options sel) \<and>
   (\<forall>j<length (sel_options sel).
      sel_options (foldl (toggle_option ty) sel js) ! j =
        (if j \<in> set js
         then (sel_options sel ! j)\<lparr>opt_display :=
                (if opt_data_type (sel_options sel ! j) = Some (type_name ty) then '''' else ''none'')\<rparr>
         else sel_options sel ! j))"
proof (induction js arbitrary: sel)
  case Nil
  then show ?case by simp
next
  case (Cons i js)
  let ?sel' = "toggle_option ty sel i"
  have len: "length (sel_options ?sel') = length (sel_options sel)"
    by (simp add: toggle_option_options)
  from Cons.IH [of ?sel'] len
  have ih: "length (sel_options (foldl (toggle_option ty) ?sel' js)) = length (sel_options sel)"
    "\<forall>j<length (sel_options sel).
      sel_options (foldl (toggle_option ty) ?sel' js) ! j =
        (if j \<in> set js
         then (sel_options ?sel' ! j)\<lparr>opt_display :=
                (if opt_data_type (sel_options ?sel' ! j) = Some (type_name ty) then '''' else ''none'')\<rparr>
         else sel_options ?sel' ! j)"
    by simp_all
  have "sel_options (foldl (toggle_option ty) ?sel' js) ! j =
        (if j \<in> set (i # js)
         then (sel_options sel ! j)\<lparr>opt_display :=
                (if opt_data_type (sel_options sel ! j) = Some (type_name ty) then '''' else ''none'')\<rparr>
         else sel_options sel ! j)" if "j < length (sel_options sel)" for j
  proof (cases "j = i")
    case True
    with that ih(2) show ?thesis by (simp add: toggle_option_options)
  next
    case False
    with that ih(2) show ?thesis by (simp add: toggle_option_options)
  qed
  with ih(1) show ?case by simp
qed

lemma foldl_toggle_options:
  "sel_options (foldl (toggle_option ty) sel (typed_option_indices sel)) =
   map (toggled ty) (sel_options sel)"
proof (rule nth_equalityI)
  show "length (sel_options (foldl (toggle_option ty) sel (typed_option_indices sel))) =
      length (map (toggled ty) (sel_options sel))"
    using foldl_toggle_nth [of ty sel "typed_option_indices sel"] by simp
next
  fix j
  assume "j < length (sel_options (foldl (toggle_option ty) sel (typed_option_indices sel)))"
  then have j: "j < length (sel_options sel)"
    using foldl_toggle_nth [of ty sel "typed_option_indices sel"] by simp
  then have "j \<in> set (typed_option_indices sel) \<longleftrightarrow> opt_data_type (sel_options sel ! j) \<noteq> None"
    by (simp add: typed_option_indices_def)
  with j foldl_toggle_nth [of ty sel "typed_option_indices sel"]
  show "sel_options (foldl (toggle_option ty) sel (typed_option_indices sel)) ! j =
      map (toggled ty) (sel_options sel) ! j"
    by (simp add: toggled_def)
qed

lemma filterCategories_old_frame [simp]:
  "allCategoryOptions (filterCategories_old ty s) = allCategoryOptions s"
  by (simp add: filterCategories_old_def Let_def split: option.splits)

lemma filterCategories_old_select:
  assumes "qopCategory s = Some sel"
  shows "\<exists>sel'. qopCategory (filterCategories_old ty s) = Some sel' \<and>
           sel_options sel' =
             (if ty = TRANSFER then sel_options sel else map (toggled ty) (sel_options sel))"
  using assms
  by (auto simp: filterCategories_old_def Let_def foldl_toggle_options split: option.splits)

lemma openModal_old_select:
  assumes "qopCategory s = Some sel"
  shows "\<exists>sel'. qopCategory (openModal_old ty s) = Some sel' \<and>
           sel_options sel' =
             (if ty = TRANSFER then sel_options sel else map (toggled ty) (sel_options sel)) \<and>
           get_value sel' = ''''"
proof -
  let ?s1 = "s\<lparr>menu_hidden := True,
                 btn_aria_expanded := ''false'',
                 qopType_value := type_name ty,
                 qopTitle_textContent :=
                   (case TITLES ty of Some t \<Rightarrow> t | None \<Rightarrow> Title_QuickOperation),
                 walletRow_display := (if ty = TRANSFER then ''none'' else ''''),
                 fromRow_display := (if ty = TRANSFER then '''' else ''none''),
                 toRow_display := (if ty = TRANSFER then '''' else ''none''),
                 qopWallet_disabled := (ty = TRANSFER),
                 qopFrom_disabled := (\<not> ty = TRANSFER),
                 qopTo_disabled := (\<not> ty = TRANSFER)\<rparr>"
  have "qopCategory ?s1 = Some sel"
    using assms by simp
  from filterCategories_old_select [OF this, of ty]
  obtain sel' where sel': "qopCategory (filterCategories_old ty ?s1) = Some sel'"
    "sel_options sel' =
       (if ty = TRANSFER then sel_options sel else map (toggled ty) (sel_options sel))"
    by blast
  have "qopCategory (openModal_old ty s) = Some (set_value '''' sel')"
    using sel'(1) by (simp add: openModal_old_def Let_def)
  then show ?thesis using sel'(2) by simp
qed

lemma openModal_select_value:
  assumes "qopCategory s = Some sel"
  shows "\<exists>sel'. qopCategory (openModal ty s) = Some sel' \<and>
           sel_options sel' = options_after ty (allCategoryOptions s) (sel_options sel) \<and>
           get_value sel' = ''''"
proof -
  from openModal_select [OF assms, of ty] obtain sel' where
    sel': "qopCategory (openModal ty s) = Some sel'"
      "sel_options sel' = options_after ty (allCategoryOptions s) (sel_options sel)"
      "selectedIndex sel' = first_index (\<lambda>opt. opt_value opt = '''') (sel_options sel')"
    by blast
  have "sel' = set_value '''' sel'"
    using sel'(3) by (intro select_eqI) simp_all
  then have "get_value sel' = ''''"
    using get_value_set_value [of sel'] by simp
  with sel'(1,2) show ?thesis by blast
qed

lemma category_row_new:
  "qopCategory s = Some sel \<Longrightarrow>
   qopCategoryRow (openModal ty s) =
     map_option (\<lambda>_. if ty = TRANSFER then ''none'' else '''') (qopCategoryRow s)"
  by (simp add: openModal_def filterCategories_def Let_def split: option.splits)

lemma category_row_old:
  "qopCategory s = Some sel \<Longrightarrow>
   qopCategoryRow (openModal_old ty s) =
     map_option (\<lambda>_. if ty = TRANSFER then ''none'' else '''') (qopCategoryRow s)"
  by (simp add: openModal_old_def filterCategories_old_def Let_def split: option.splits)

lemma openModal_old_catalog [simp]:
  "allCategoryOptions (openModal_old ty s) = allCategoryOptions s"
  by (simp add: openModal_old_def Let_def)

text \<open>Options that differ in their inline style only offer the same entries of a type.\<close>

lemma typed_entries_strip:
  "map value_and_text (filter (\<lambda>opt. opt_data_type opt = Some n) (map strip_display xs)) =
   map value_and_text (filter (\<lambda>opt. opt_data_type opt = Some n) xs)"
  by (induction xs) (simp_all add: strip_display_def value_and_text_def)

lemma typed_entries_toggled:
  assumes "list_all (\<lambda>opt. opt_data_type opt \<noteq> None) xs"
  shows "map value_and_text (filter (\<lambda>opt. visible (opt_display opt)) (map (toggled ty) xs)) =
         map value_and_text (filter (\<lambda>opt. opt_data_type opt = Some (type_name ty)) xs)"
  using assms by (induction xs) (auto simp: toggled_def value_and_text_def visible_def)

lemma typed_entries_created:
  assumes "list_all (\<lambda>opt. opt_data_type opt \<noteq> None) xs"
  shows "map value_and_text
           (filter (\<lambda>opt. visible (opt_display opt))
              (map createOption (filter (\<lambda>c. cat_type c = n) (map category_of xs)))) =
         map value_and_text (filter (\<lambda>opt. opt_data_type opt = Some n) xs)"
  using assms
  by (induction xs) (auto simp: createOption_def category_of_def value_and_text_def visible_def)

lemma strip_typed:
  assumes "map strip_display co = map strip_display cats"
    and "list_all (\<lambda>opt. opt_data_type opt \<noteq> None) cats"
  shows "list_all (\<lambda>opt. opt_data_type opt \<noteq> None) co"
proof -
  have "list_all (\<lambda>opt. opt_data_type opt \<noteq> None) (map strip_display cats)"
    using assms(2) by (induction cats) (simp_all add: strip_display_def)
  with assms(1) have "list_all (\<lambda>opt. opt_data_type opt \<noteq> None) (map strip_display co)"
    by simp
  then show ?thesis
    by (induction co) (simp_all add: strip_display_def)
qed

lemma strip_toggled: "map strip_display (map (toggled ty) xs) = map strip_display xs"
  by (induction xs) (simp_all add: strip_display_def toggled_def)

lemma presented_Cons:
  "presented True \<lparr>sel_options = ph # xs, selectedIndex = i\<rparr> =
     (if visible (opt_display ph) then [value_and_text ph] else []) @
     map value_and_text (filter (\<lambda>opt. visible (opt_display opt)) xs)"
  by (simp add: presented_def value_and_text_def)

lemma presented_options:
  "presented h sel = presented h \<lparr>sel_options = sel_options sel, selectedIndex = None\<rparr>"
  by (simp add: presented_def)

text \<open>
  The two versions in step: from one host page, through the same series of menu choices.
  The toggling version keeps the page's options and changes their style; the rebuild
  version keeps the first option; both offer the same entries.
\<close>

lemma in_step:
  assumes "qopCategory p = Some sel" and "sel_options sel = ph # cats"
    and "opt_data_type ph = None"
    and "list_all (\<lambda>opt. opt_data_type opt \<noteq> None) cats"
    and "allCategoryOptions p = []"
  shows "\<exists>selo seln co cn.
           qopCategory (run_old tys p) = Some selo \<and>
           qopCategory (run_new tys p) = Some seln \<and>
           sel_options selo = ph # co \<and> sel_options seln = ph # cn \<and>
           map strip_display co = map strip_display cats \<and>
           allCategoryOptions (run_new tys p) = map category_of cats \<and>
           presented True selo = presented True seln \<and>
           qopCategoryRow (run_old tys p) = qopCategoryRow (run_new tys p)"
proof (induction tys rule: rev_induct)
  case Nil
  have "allCategoryOptions (init p) = map category_of cats"
    using assms by (simp add: init_def list_all_iff filter_id_conv)
  moreover have "qopCategory (init p) = Some sel" "qopCategoryRow (init p) = qopCategoryRow p"
    using assms(1) by (simp_all add: init_def)
  ultimately show ?case
    using assms(1,2) by (simp add: run_old_def run_new_def)
next
  case (snoc ty tys)
  then obtain selo seln co cn where inv:
    "qopCategory (run_old tys p) = Some selo" "qopCategory (run_new tys p) = Some seln"
    "sel_options selo = ph # co" "sel_options seln = ph # cn"
    "map strip_display co = map strip_display cats"
    "allCategoryOptions (run_new tys p) = map category_of cats"
    "presented True selo = presented True seln"
    "qopCategoryRow (run_old tys p) = qopCategoryRow (run_new tys p)"
    by blast
  have ro: "run_old (tys @ [ty]) p = openModal_old ty (run_old tys p)"
    and rn: "run_new (tys @ [ty]) p = openModal ty (run_new tys p)"
    by (simp_all add: run_old_def run_new_def)
  from openModal_old_select [OF inv(1), of ty] obtain selo' where
    o: "qopCategory (openModal_old ty (run_old tys p)) = Some selo'"
      "sel_options selo' =
         (if ty = TRANSFER then sel_options selo else map (toggled ty) (sel_options selo))"
    by blast
  from openModal_select [OF inv(2), of ty] obtain seln' where
    n: "qopCategory (openModal ty (run_new tys p)) = Some seln'"
      "sel_options seln' =
         options_after ty (allCategoryOptions (run_new tys p)) (sel_options seln)"
    by blast
  have typed_co: "list_all (\<lambda>opt. opt_data_type opt \<noteq> None) co"
    using strip_typed [OF inv(5) assms(4)] .
  let ?co' = "if ty = TRANSFER then co else map (toggled ty) co"
  let ?cn' = "if ty = TRANSFER then cn
              else map createOption
                     (filter (\<lambda>c. cat_type c = type_name ty) (map category_of cats))"
  have o_opts: "sel_options selo' = ph # ?co'"
    using o(2) inv(3) assms(3) by (simp add: toggled_def)
  have n_opts: "sel_options seln' = ph # ?cn'"
    using n(2) inv(4,6) by (simp add: options_after_Cons)
  have strip: "map strip_display ?co' = map strip_display cats"
    using inv(5) strip_toggled [of ty co] by (cases "ty = TRANSFER") simp_all
  have pres: "presented True selo' = presented True seln'"
  proof (cases "ty = TRANSFER")
    case True
    have "presented True selo' = presented True selo"
      using o_opts inv(3) True by (simp add: presented_def)
    moreover have "presented True seln' = presented True seln"
      using n_opts inv(4) True by (simp add: presented_def)
    ultimately show ?thesis using inv(7) by simp
  next
    case False
    have "map value_and_text (filter (\<lambda>opt. visible (opt_display opt)) (map (toggled ty) co)) =
        map value_and_text (filter (\<lambda>opt. opt_data_type opt = Some (type_name ty)) co)"
      using typed_entries_toggled [OF typed_co] .
    also have "\<dots> = map value_and_text
        (filter (\<lambda>opt. opt_data_type opt = Some (type_name ty)) (map strip_display co))"
      by (simp add: typed_entries_strip)
    also have "\<dots> = map value_and_text
        (filter (\<lambda>opt. opt_data_type opt = Some (type_name ty)) cats)"
      by (simp add: inv(5) typed_entries_strip)
    also have "\<dots> = map value_and_text
        (filter (\<lambda>opt. visible (opt_display opt))
           (map createOption
              (filter (\<lambda>c. cat_type c = type_name ty) (map category_of cats))))"
      using typed_entries_created [OF assms(4), of "type_name ty"] by simp
    finally have "map value_and_text (filter (\<lambda>opt. visible (opt_display opt)) ?co') =
        map value_and_text (filter (\<lambda>opt. visible (opt_display opt)) ?cn')"
      using False by simp
    moreover have "presented True selo' =
        presented True \<lparr>sel_options = ph # ?co', selectedIndex = None\<rparr>"
      using presented_options [of True selo'] o_opts by simp
    moreover have "presented True seln' =
        presented True \<lparr>sel_options = ph # ?cn', selectedIndex = None\<rparr>"
      using presented_options [of True seln'] n_opts by simp
    ultimately show ?thesis
      by (simp only: presented_Cons)
  qed
  have row: "qopCategoryRow (openModal_old ty (run_old tys p)) =
      qopCategoryRow (openModal ty (run_new tys p))"
    using category_row_old [OF inv(1), of ty] category_row_new [OF inv(2), of ty] inv(8)
    by simp
  have cat: "allCategoryOptions (openModal ty (run_new tys p)) = map category_of cats"
    using inv(6) by simp
  show ?case
    unfolding ro rn using o(1) n(1) o_opts n_opts strip pres row cat by blast
qed

lemma value_and_text_strip:
  assumes "map strip_display xs = map strip_display ys"
  shows "map value_and_text xs = map value_and_text ys"
proof -
  have "map value_and_text zs = map value_and_text (map strip_display zs)" for zs
    by (induction zs) (simp_all add: value_and_text_def strip_display_def)
  from this [of xs] this [of ys] assms show ?thesis by simp
qed

lemma category_row_kept:
  assumes "qopCategory p = Some sel" and "sel_options sel = ph # cats"
    and "opt_data_type ph = None"
    and "list_all (\<lambda>opt. opt_data_type opt \<noteq> None) cats"
    and "allCategoryOptions p = []"
    and "qopCategoryRow p = Some d"
  shows "\<exists>r. qopCategoryRow (run_new tys p) = Some r"
proof (induction tys rule: rev_induct)
  case Nil
  show ?case using assms(1,6) by (simp add: run_new_def init_def)
next
  case (snoc ty tys)
  then obtain r where r: "qopCategoryRow (run_new tys p) = Some r"
    by blast
  from in_step [OF assms(1-5), of tys] obtain sn where
    sn: "qopCategory (run_new tys p) = Some sn"
    by blast
  have "run_new (tys @ [ty]) p = openModal ty (run_new tys p)"
    by (simp add: run_new_def)
  with category_row_new [OF sn, of ty] r show ?case by simp
qed

text \<open>
  Claim C9, as the code has it. Take a host page with the category row, whose select
  starts with the "no category" option (shown, without a \<open>data-type\<close>) followed by
  options that all carry a \<open>data-type\<close>, and run both versions of the script from it
  through the same series of menu choices, on a browser that leaves out options styled
  \<open>display: none\<close>. After every \<open>openModal\<close> both versions offer the same entries and both
  have the empty value selected. After an income or an expense both show the category
  row, and the entries are the "no category" entry and the page's entries of that type.
  After a transfer both hide the category row, and each version leaves its option list as
  it was. On a browser that shows an option whatever its \<open>display\<close>, the toggling version
  offers every option of the page after every \<open>openModal\<close>.
\<close>

theorem versions_offer_the_same:
  assumes "qopCategory p = Some sel" and "sel_options sel = ph # cats"
    and "opt_data_type ph = None" and "visible (opt_display ph)"
    and "list_all (\<lambda>opt. opt_data_type opt \<noteq> None) cats"
    and "allCategoryOptions p = []"
    and "qopCategoryRow p = Some d"
  shows "\<exists>selo seln.
           qopCategory (run_old (tys @ [ty]) p) = Some selo \<and>
           qopCategory (run_new (tys @ [ty]) p) = Some seln \<and>
           presented True selo = presented True seln \<and>
           presented False selo = value_and_text ph # map value_and_text cats \<and>
           get_value selo = '''' \<and> get_value seln = '''' \<and>
           qopCategoryRow (run_old (tys @ [ty]) p) =
             Some (if ty = TRANSFER then ''none'' else '''') \<and>
           qopCategoryRow (run_new (tys @ [ty]) p) =
             Some (if ty = TRANSFER then ''none'' else '''') \<and>
           (if ty = TRANSFER
            then map_option sel_options (qopCategory (run_old tys p)) = Some (sel_options selo) \<and>
                 map_option sel_options (qopCategory (run_new tys p)) = Some (sel_options seln)
            else presented True seln =
                   value_and_text ph #
                   map value_and_text
                     (filter (\<lambda>opt. opt_data_type opt = Some (type_name ty)) cats))"
proof -
  from in_step [OF assms(1,2,3,5,6), of tys] obtain so sn co cn where before:
    "qopCategory (run_old tys p) = Some so" "qopCategory (run_new tys p) = Some sn"
    "sel_options sn = ph # cn"
    "allCategoryOptions (run_new tys p) = map category_of cats"
    by blast
  from in_step [OF assms(1,2,3,5,6), of "tys @ [ty]"] obtain selo seln co' where after:
    "qopCategory (run_old (tys @ [ty]) p) = Some selo"
    "qopCategory (run_new (tys @ [ty]) p) = Some seln"
    "presented True selo = presented True seln"
    "qopCategoryRow (run_old (tys @ [ty]) p) = qopCategoryRow (run_new (tys @ [ty]) p)"
    and kept: "sel_options selo = ph # co'" "map strip_display co' = map strip_display cats"
    by blast
  have "presented False selo = map value_and_text (sel_options selo)"
    by (simp add: presented_def value_and_text_def)
  with kept(1) value_and_text_strip [OF kept(2)]
  have every: "presented False selo = value_and_text ph # map value_and_text cats"
    by simp
  have ro: "run_old (tys @ [ty]) p = openModal_old ty (run_old tys p)"
    and rn: "run_new (tys @ [ty]) p = openModal ty (run_new tys p)"
    by (simp_all add: run_old_def run_new_def)
  from category_row_kept [OF assms(1,2,3,5,6,7), of tys] obtain r where
    "qopCategoryRow (run_new tys p) = Some r"
    by blast
  with category_row_new [OF before(2), of ty]
  have row_new: "qopCategoryRow (run_new (tys @ [ty]) p) =
      Some (if ty = TRANSFER then ''none'' else '''')"
    unfolding rn by simp
  with after(4)
  have row_old: "qopCategoryRow (run_old (tys @ [ty]) p) =
      Some (if ty = TRANSFER then ''none'' else '''')"
    by simp
  from openModal_old_select [OF before(1), of ty] after(1)
  have o: "sel_options selo =
        (if ty = TRANSFER then sel_options so else map (toggled ty) (sel_options so))"
      "get_value selo = ''''"
    unfolding ro by auto
  from openModal_select_value [OF before(2), of ty] after(2)
  have n: "sel_options seln =
        options_after ty (allCategoryOptions (run_new tys p)) (sel_options sn)"
      "get_value seln = ''''"
    unfolding rn by auto
  have last: "presented True seln =
      value_and_text ph #
      map value_and_text (filter (\<lambda>opt. opt_data_type opt = Some (type_name ty)) cats)"
    if "ty \<noteq> TRANSFER"
  proof -
    have "sel_options seln =
        ph # map createOption
               (filter (\<lambda>c. cat_type c = type_name ty) (map category_of cats))"
      using n(1) before(3,4) that by (simp add: options_after_Cons)
    with presented_options [of True seln]
    have "presented True seln =
        presented True
          \<lparr>sel_options = ph # map createOption
                                 (filter (\<lambda>c. cat_type c = type_name ty) (map category_of cats)),
           selectedIndex = None\<rparr>"
      by simp
    also have "\<dots> = value_and_text ph #
        map value_and_text (filter (\<lambda>opt. opt_data_type opt = Some (type_name ty)) cats)"
      using assms(4) typed_entries_created [OF assms(5), of "type_name ty"]
      by (simp only: presented_Cons) simp
    finally show ?thesis .
  qed
  show ?thesis
  proof (cases "ty = TRANSFER")
    case True
    with after(1,2,3) every row_old row_new o n before(1,2) show ?thesis
      by (simp add: options_after_def)
  next
    case False
    with after(1,2,3) every row_old row_new o(2) n(2) last show ?thesis by simp
  qed
qed

theorem versions_offer_the_same_witness:
  "map_option (presented True) (qopCategory (run_old [TRANSFER, INCOME] sample_page)) =
     Some [('''', ''No category''), (''1'', ''Salary'')] \<and>
   map_option (presented True) (qopCategory (run_new [TRANSFER, INCOME] sample_page)) =
     Some [('''', ''No category''), (''1'', ''Salary'')] \<and>
   map_option get_value (qopCategory (run_old [TRANSFER, INCOME] sample_page)) = Some '''' \<and>
   map_option get_value (qopCategory (run_new [TRANSFER, INCOME] sample_page)) = Some '''' \<and>
   qopCategoryRow (run_old [TRANSFER, INCOME] sample_page) = Some '''' \<and>
   qopCategoryRow (run_new [TRANSFER, INCOME] sample_page) = Some '''' \<and>
   qopCategoryRow (run_old [INCOME, TRANSFER] sample_page) = Some ''none'' \<and>
   qopCategoryRow (run_new [INCOME, TRANSFER] sample_page) = Some ''none''"
proof -
  have p: "qopCategory sample_page = Some sample_select"
    "sel_options sample_select = no_category # [salary, food]"
    "opt_data_type no_category = None" "visible (opt_display no_category)"
    "list_all (\<lambda>opt. opt_data_type opt \<noteq> None) [salary, food]"
    "allCategoryOptions sample_page = []"
    "qopCategoryRow sample_page = Some ''''"
    by (simp_all add: sample_page_def sample_select_def no_category_def salary_def food_def
        visible_def)
  from versions_offer_the_same [OF p, of "[TRANSFER]" INCOME] obtain selo seln where
    "qopCategory (run_old [TRANSFER, INCOME] sample_page) = Some selo"
    "qopCategory (run_new [TRANSFER, INCOME] sample_page) = Some seln"
    "presented True selo = presented True seln"
    "get_value selo = ''''" "get_value seln = ''''"
    "qopCategoryRow (run_old [TRANSFER, INCOME] sample_page) = Some ''''"
    "qopCategoryRow (run_new [TRANSFER, INCOME] sample_page) = Some ''''"
    "presented True seln =
       value_and_text no_category #
       map value_and_text
         (filter (\<lambda>opt. opt_data_type opt = Some (type_name INCOME)) [salary, food])"
    by auto
  then have income: "map_option (presented True) (qopCategory (run_old [TRANSFER, INCOME] sample_page)) =
       Some [('''', ''No category''), (''1'', ''Salary'')]"
    "map_option (presented True) (qopCategory (run_new [TRANSFER, INCOME] sample_page)) =
       Some [('''', ''No category''), (''1'', ''Salary'')]"
    "map_option get_value (qopCategory (run_old [TRANSFER, INCOME] sample_page)) = Some ''''"
    "map_option get_value (qopCategory (run_new [TRANSFER, INCOME] sample_page)) = Some ''''"
    "qopCategoryRow (run_old [TRANSFER, INCOME] sample_page) = Some ''''"
    "qopCategoryRow (run_new [TRANSFER, INCOME] sample_page) = Some ''''"
    by (simp_all add: value_and_text_def no_category_def salary_def food_def)
  from versions_offer_the_same [OF p, of "[INCOME]" TRANSFER]
  have transfer: "qopCategoryRow (run_old [INCOME, TRANSFER] sample_page) = Some ''none''"
    "qopCategoryRow (run_new [INCOME, TRANSFER] sample_page) = Some ''none''"
    by auto
  from income transfer show ?thesis by simp
qed

text \<open>
  The claim as the spec words it fails in two places. After a transfer neither version
  reduces the select to the "no category" entry: from the sample page both still hold
  every category, none of which is a transfer category. And on a browser that shows an
  option whatever its \<open>display\<close>, the toggling version offers the expense category after
  \<open>openModal(INCOME)\<close>, which the rebuild version does not.
\<close>

theorem versions_not_as_claimed:
  "map_option (presented True) (qopCategory (run_new [TRANSFER] sample_page)) =
     Some [('''', ''No category''), (''1'', ''Salary''), (''2'', ''Food'')] \<and>
   map_option (presented True) (qopCategory (run_old [TRANSFER] sample_page)) =
     Some [('''', ''No category''), (''1'', ''Salary''), (''2'', ''Food'')] \<and>
   map_option (presented False) (qopCategory (run_old [INCOME] sample_page)) =
     Some [('''', ''No category''), (''1'', ''Salary''), (''2'', ''Food'')] \<and>
   map_option (presented False) (qopCategory (run_new [INCOME] sample_page)) =
     Some [('''', ''No category''), (''1'', ''Salary'')]"
proof -
  have i: "qopCategory (init sample_page) = Some sample_select"
    "allCategoryOptions (init sample_page) = [category_of salary, category_of food]"
    by (simp_all add: init_def sample_page_def sample_select_def no_category_def salary_def
        food_def)
  have s: "qopCategory sample_page = Some sample_select"
    by (simp add: sample_page_def)
  have r: "run_new [TRANSFER] sample_page = openModal TRANSFER (init sample_page)"
    "run_new [INCOME] sample_page = openModal INCOME (init sample_page)"
    "run_old [TRANSFER] sample_page = openModal_old TRANSFER sample_page"
    "run_old [INCOME] sample_page = openModal_old INCOME sample_page"
    by (simp_all add: run_new_def run_old_def)
  from openModal_select [OF i(1), of TRANSFER]
  have a: "map_option (presented True) (qopCategory (run_new [TRANSFER] sample_page)) =
      Some [('''', ''No category''), (''1'', ''Salary''), (''2'', ''Food'')]"
    unfolding r
    by (auto simp: presented_def options_after_def sample_select_def no_category_def salary_def
        food_def visible_def)
  from openModal_old_select [OF s, of TRANSFER]
  have b: "map_option (presented True) (qopCategory (run_old [TRANSFER] sample_page)) =
      Some [('''', ''No category''), (''1'', ''Salary''), (''2'', ''Food'')]"
    unfolding r
    by (auto simp: presented_def sample_select_def no_category_def salary_def food_def
        visible_def)
  from openModal_old_select [OF s, of INCOME]
  have c: "map_option (presented False) (qopCategory (run_old [INCOME] sample_page)) =
      Some [('''', ''No category''), (''1'', ''Salary''), (''2'', ''Food'')]"
    unfolding r
    by (auto simp: presented_def toggled_def sample_select_def no_category_def salary_def
        food_def)
  from openModal_select [OF i(1), of INCOME]
  have d: "map_option (presented False) (qopCategory (run_new [INCOME] sample_page)) =
      Some [('''', ''No category''), (''1'', ''Salary'')]"
    unfolding r
    by (auto simp: presented_def options_after_def i(2) createOption_def category_of_def
        sample_select_def no_category_def salary_def food_def)
  from a b c d show ?thesis by simp
qed

section \<open>Properties of the push registration\<close>

subsection \<open>Rendering\<close>

lemma set_status_button [simp]: "pushToggleBtn (set_status t p) = pushToggleBtn p"
  by (simp add: set_status_def split: option.splits)

lemma updateUI_keeps_disabled:
  "state = ''subscribed'' \<or> state = ''prompt'' \<Longrightarrow>
   map_option btn_disabled (pushToggleBtn (updateUI state p)) =
   map_option btn_disabled (pushToggleBtn p)"
  by (auto simp: updateUI_def split: option.splits)

lemma updateUI_disables:
  "state \<noteq> ''subscribed'' \<Longrightarrow> state \<noteq> ''prompt'' \<Longrightarrow>
   map_option btn_disabled (pushToggleBtn (updateUI state p)) =
   map_option (\<lambda>_. True) (pushToggleBtn p)"
  by (auto simp: updateUI_def Let_def split: option.splits)

lemma render_all_keeps_disabled:
  "set states \<subseteq> {''subscribed'', ''prompt''} \<Longrightarrow>
   map_option btn_disabled (pushToggleBtn (render_all states p)) =
   map_option btn_disabled (pushToggleBtn p)"
proof (induction states arbitrary: p)
  case Nil
  then show ?case by (simp add: render_all_def)
next
  case (Cons st states)
  then have st: "st = ''subscribed'' \<or> st = ''prompt''" and rest: "set states \<subseteq> {''subscribed'', ''prompt''}"
    by auto
  have "render_all (st # states) p = render_all states (updateUI st p)"
    by (simp add: render_all_def)
  with Cons.IH [OF rest, of "updateUI st p"] updateUI_keeps_disabled [OF st, of p]
  show ?case by simp
qed

text \<open>
  Claim C10. \<open>updateUI\<close> leaves the button's \<open>disabled\<close> flag as it is when it renders
  \<open>subscribed\<close> or \<open>prompt\<close>, and sets it for every other state (\<open>denied\<close>, and
  \<open>unsupported\<close> through the last branch); a flag that is set stays set. So after a render of
  \<open>denied\<close> or \<open>unsupported\<close>, the button stays disabled through any series of
  \<open>subscribed\<close> and \<open>prompt\<close> renders.
\<close>

theorem updateUI_disabled_frame:
  "(state = ''subscribed'' \<or> state = ''prompt'' \<longrightarrow>
      map_option btn_disabled (pushToggleBtn (updateUI state p)) =
      map_option btn_disabled (pushToggleBtn p)) \<and>
   (state = ''denied'' \<or> state = ''unsupported'' \<longrightarrow>
      map_option btn_disabled (pushToggleBtn (updateUI state p)) =
      map_option (\<lambda>_. True) (pushToggleBtn p)) \<and>
   ((state = ''denied'' \<or> state = ''unsupported'') \<and>
    set states \<subseteq> {''subscribed'', ''prompt''} \<longrightarrow>
      map_option btn_disabled (pushToggleBtn (render_all states (updateUI state p))) =
      map_option (\<lambda>_. True) (pushToggleBtn p)) \<and>
   (map_option btn_disabled (pushToggleBtn p) = Some True \<longrightarrow>
      map_option btn_disabled (pushToggleBtn (updateUI state p)) = Some True)"
proof (intro conjI impI)
  assume "state = ''subscribed'' \<or> state = ''prompt''"
  then show "map_option btn_disabled (pushToggleBtn (updateUI state p)) =
      map_option btn_disabled (pushToggleBtn p)"
    by (rule updateUI_keeps_disabled)
next
  assume "state = ''denied'' \<or> state = ''unsupported''"
  then show "map_option btn_disabled (pushToggleBtn (updateUI state p)) =
      map_option (\<lambda>_. True) (pushToggleBtn p)"
    by (intro updateUI_disables) auto
next
  assume a: "(state = ''denied'' \<or> state = ''unsupported'') \<and>
    set states \<subseteq> {''subscribed'', ''prompt''}"
  then have "map_option btn_disabled (pushToggleBtn (updateUI state p)) =
      map_option (\<lambda>_. True) (pushToggleBtn p)"
    by (intro updateUI_disables) auto
  with a render_all_keeps_disabled [of states "updateUI state p"]
  show "map_option btn_disabled (pushToggleBtn (render_all states (updateUI state p))) =
      map_option (\<lambda>_. True) (pushToggleBtn p)"
    by simp
next
  assume d: "map_option btn_disabled (pushToggleBtn p) = Some True"
  show "map_option btn_disabled (pushToggleBtn (updateUI state p)) = Some True"
  proof (cases "state = ''subscribed'' \<or> state = ''prompt''")
    case True
    from updateUI_keeps_disabled [OF this, of p] d show ?thesis by simp
  next
    case False
    then have "map_option btn_disabled (pushToggleBtn (updateUI state p)) =
        map_option (\<lambda>_. True) (pushToggleBtn p)"
      by (intro updateUI_disables) auto
    with d show ?thesis by (cases "pushToggleBtn p") simp_all
  qed
qed

theorem updateUI_disabled_frame_witness:
  "map_option btn_disabled (pushToggleBtn (updateUI ''prompt'' sample_push_page)) = Some False \<and>
   map_option btn_disabled (pushToggleBtn (updateUI ''denied'' sample_push_page)) = Some True \<and>
   map_option btn_disabled
     (pushToggleBtn (render_all [''subscribed'', ''prompt''] (updateUI ''denied'' sample_push_page))) =
     Some True"
  using updateUI_disabled_frame [of "''prompt''" sample_push_page "[]"]
    updateUI_disabled_frame [of "''denied''" sample_push_page "[''subscribed'', ''prompt'']"]
  by (simp add: sample_push_page_def sample_button_def)

subsection \<open>Looking up the registration\<close>

lemma getRegistration_frame:
  assumes "getRegistration env w = (r, w1)"
  shows "page w1 = page w \<and> (\<exists>evs. events w1 = events w @ evs \<and> set evs \<subseteq> lookup_events)"
proof (cases "\<not> serviceWorker_in_navigator env \<or> \<not> PushManager_in_window env")
  case True
  with assms show ?thesis by (auto simp: getRegistration_def)
next
  case False
  with assms show ?thesis
    by (cases "getRegistrations_length env"; cases "register_outcome env";
        cases "ready_outcome env")
       (auto simp: getRegistration_def and_then_def await_def lookup_events_def
          split: if_splits)
qed

lemma getCurrentSubscription_frame:
  assumes "getCurrentSubscription env w = (r, w1)"
  shows "page w1 = page w \<and>
         (\<exists>evs. events w1 = events w @ evs \<and> set evs \<subseteq> insert PM_getSubscription lookup_events)"
proof -
  obtain r0 w0 where g: "getRegistration env w = (r0, w0)"
    by (cases "getRegistration env w")
  from getRegistration_frame [OF g] obtain evs where
    f: "page w0 = page w" "events w0 = events w @ evs" "set evs \<subseteq> lookup_events"
    by blast
  show ?thesis
  proof (cases r0)
    case (Returned reg)
    show ?thesis
    proof (cases reg)
      case None
      with Returned g assms f show ?thesis
        by (auto simp: getCurrentSubscription_def and_then_def)
    next
      case (Some a)
      with Returned g assms have "page w1 = page w0" "events w1 = events w0 @ [PM_getSubscription]"
        by (auto simp: getCurrentSubscription_def and_then_def await_def)
      with f have "page w1 = page w"
        "events w1 = events w @ (evs @ [PM_getSubscription]) \<and>
         set (evs @ [PM_getSubscription]) \<subseteq> insert PM_getSubscription lookup_events"
        by auto
      then show ?thesis by blast
    qed
  next
    case Threw
    with g assms f show ?thesis
      by (auto simp: getCurrentSubscription_def and_then_def)
  next
    case Hangs
    with g assms f show ?thesis
      by (auto simp: getCurrentSubscription_def and_then_def)
  qed
qed

lemma filter_lookup_events:
  assumes "set evs \<subseteq> insert PM_getSubscription lookup_events"
  shows "filter is_push_subscribe evs = []" "filter is_fetch evs = []"
    "filter (\<lambda>e. e = Sub_unsubscribe) evs = []" "filter is_alert evs = []"
  using assms by (auto simp: filter_empty_conv lookup_events_def)

subsection \<open>Subscribing\<close>

text \<open>
  Claim C4, at the input where the code departs from it: the browser supports push, the
  key is configured, the platform grants the subscription, and the backend answers the
  POST with a status outside 2xx. \<open>subscribe\<close> returns after the request: no alert, no
  console message, and the page as it was.
\<close>

theorem subscribe_backend_refuses_silent:
  "subscribe backend_refuses sample_world =
     (Returned (),
      \<lparr>page = sample_push_page,
       events = [SW_getRegistrations, SW_ready, PM_subscribe [4, 73, 122],
                 Fetch ''POST'' ''/api/push/subscribe'' sample_subscription]\<rparr>)"
  by (simp add: subscribe_def subscribe_try_def getRegistration_def getApplicationServerKey_def
      and_then_def await_def replace_char_def backend_refuses_def not_subscribed_def
      sample_platform_def sample_world_def)

text \<open>The parts of the claim that the code keeps, in the same setting.\<close>

lemma subscribe_try_succeeds:
  assumes "pushManager_subscribe_outcome env = Fulfilled sub"
    and "fetch_subscribe_outcome env = Fulfilled True"
  shows "subscribe_try env appKey w =
           (Returned (),
            render ''subscribed''
              (w\<lparr>events := events w @ [PM_subscribe appKey, Fetch ''POST'' ''/api/push/subscribe'' sub]\<rparr>))"
  using assms by (simp add: subscribe_try_def and_then_def await_def render_def)

lemma subscribe_catch_denied:
  "Notification_permission env = ''denied'' \<Longrightarrow>
   subscribe_catch env w = (Returned (), render ''denied'' w)"
  by (simp add: subscribe_catch_def)

lemma subscribe_catch_other:
  "Notification_permission env \<noteq> ''denied'' \<Longrightarrow>
   subscribe_catch env w =
     (Returned (), w\<lparr>events := events w @ [Console_error, Alert Txt_CouldNotConnect]\<rparr>)"
  by (simp add: subscribe_catch_def alert_def console_error_def)

text \<open>
  Claim C6, as the code has it. When the injected key is unset (absent or empty),
  \<open>subscribe\<close> never calls the platform's push-subscribe and leaves the page as it was.
  It shows an alert when the lookup of the registration completes ("not supported" when
  there is no registration, "key not configured" otherwise); when the lookup is rejected
  or never settles, \<open>subscribe\<close> ends the same way, without an alert.
\<close>

theorem subscribe_without_key:
  assumes "VAPID_PUBLIC_KEY env = None \<or> VAPID_PUBLIC_KEY env = Some ''''"
  shows "filter is_push_subscribe (events (snd (subscribe env w))) =
           filter is_push_subscribe (events w) \<and>
         page (snd (subscribe env w)) = page w \<and>
         (case getRegistration env w of
            (Returned reg, w1) \<Rightarrow>
              subscribe env w =
                (Returned (),
                 alert (if reg = None then Txt_PushNotSupported else Txt_VapidKeyNotConfigured) w1)
          | (Threw, w1) \<Rightarrow>
              subscribe env w = (Threw, w1) \<and>
              filter is_alert (events w1) = filter is_alert (events w)
          | (Hangs, w1) \<Rightarrow>
              subscribe env w = (Hangs, w1) \<and>
              filter is_alert (events w1) = filter is_alert (events w))"
proof -
  obtain r w1 where g: "getRegistration env w = (r, w1)"
    by (cases "getRegistration env w")
  from getRegistration_frame [OF g] obtain evs where
    f: "page w1 = page w" "events w1 = events w @ evs" "set evs \<subseteq> lookup_events"
    by blast
  then have sub: "set evs \<subseteq> insert PM_getSubscription lookup_events" by auto
  have key: "getApplicationServerKey env = Inr None"
    using assms by (auto simp: getApplicationServerKey_def)
  show ?thesis
  proof (cases r)
    case (Returned reg)
    with g key have "subscribe env w =
        (Returned (), alert (if reg = None then Txt_PushNotSupported else Txt_VapidKeyNotConfigured) w1)"
      by (cases reg) (simp_all add: subscribe_def and_then_def)
    with g Returned f filter_lookup_events [OF sub] show ?thesis
      by (simp add: alert_def)
  next
    case Threw
    with g have "subscribe env w = (Threw, w1)"
      by (simp add: subscribe_def and_then_def)
    with g Threw f filter_lookup_events [OF sub] show ?thesis by simp
  next
    case Hangs
    with g have "subscribe env w = (Hangs, w1)"
      by (simp add: subscribe_def and_then_def)
    with g Hangs f filter_lookup_events [OF sub] show ?thesis by simp
  qed
qed

theorem subscribe_without_key_witness:
  "subscribe no_key sample_world =
     (Returned (),
      \<lparr>page = sample_push_page,
       events = [SW_getRegistrations, SW_ready, Alert Txt_VapidKeyNotConfigured]\<rparr>)"
proof -
  have k: "VAPID_PUBLIC_KEY no_key = None \<or> VAPID_PUBLIC_KEY no_key = Some ''''"
    by (simp add: no_key_def)
  have g: "getRegistration no_key sample_world =
      (Returned (Some Registration),
       \<lparr>page = sample_push_page, events = [SW_getRegistrations, SW_ready]\<rparr>)"
    by (simp add: getRegistration_def and_then_def await_def no_key_def not_subscribed_def
        sample_platform_def sample_world_def)
  from subscribe_without_key [OF k, of sample_world] show ?thesis
    by (simp add: g alert_def)
qed

text \<open>
  The claim as the spec words it fails where the lookup of the registration is rejected:
  with no key configured, \<open>subscribe\<close> throws and no alert is shown.
\<close>

theorem subscribe_without_key_no_alert:
  "VAPID_PUBLIC_KEY no_key_lookup_fails = None \<and>
   fst (subscribe no_key_lookup_fails sample_world) = Threw \<and>
   filter is_alert (events (snd (subscribe no_key_lookup_fails sample_world))) = []"
  by (simp add: subscribe_def getRegistration_def and_then_def await_def
      no_key_lookup_fails_def no_key_def not_subscribed_def sample_platform_def sample_world_def)

subsection \<open>Unsubscribing\<close>

text \<open>When the lookup of the current subscription has returned.\<close>

lemma unsubscribe_after_lookup:
  assumes "getCurrentSubscription env w = (Returned sub, w1)"
  shows "page w1 = page w \<and>
         filter is_fetch (events w1) = filter is_fetch (events w) \<and>
         filter (\<lambda>e. e = Sub_unsubscribe) (events w1) =
           filter (\<lambda>e. e = Sub_unsubscribe) (events w) \<and>
         (sub = None \<longrightarrow> unsubscribe env w = (Returned (), render ''prompt'' w1)) \<and>
         (\<forall>json b. sub = Some json \<and> sub_unsubscribe_outcome env = Fulfilled b \<and>
            fetch_unsubscribe_outcome env \<noteq> Never \<longrightarrow>
            unsubscribe env w =
              (Returned (),
               render ''prompt''
                 (w1\<lparr>events := events w1 @
                        [Sub_unsubscribe, Fetch ''DELETE'' ''/api/push/unsubscribe'' json]\<rparr>)))"
proof -
  from getCurrentSubscription_frame [OF assms] obtain evs where
    f: "page w1 = page w" "events w1 = events w @ evs"
      "set evs \<subseteq> insert PM_getSubscription lookup_events"
    by blast
  have none: "sub = None \<longrightarrow> unsubscribe env w = (Returned (), render ''prompt'' w1)"
    using assms by (simp add: unsubscribe_def and_then_def)
  have some: "unsubscribe env w =
      (Returned (),
       render ''prompt''
         (w1\<lparr>events := events w1 @
                [Sub_unsubscribe, Fetch ''DELETE'' ''/api/push/unsubscribe'' json]\<rparr>))"
    if "sub = Some json" "sub_unsubscribe_outcome env = Fulfilled b"
      "fetch_unsubscribe_outcome env \<noteq> Never" for json b
    using assms that
    by (cases "fetch_unsubscribe_outcome env")
       (simp_all add: unsubscribe_def and_then_def await_def swallow_def)
  from f filter_lookup_events [OF f(3)] none some show ?thesis by simp
qed

text \<open>
  The failing runs: when the lookup of the subscription is rejected, or the platform
  rejects the revocation, \<open>unsubscribe\<close> throws at that call, with the page as it was
  before the call and no request sent. When the lookup never settles, neither does
  \<open>unsubscribe\<close>.
\<close>

lemma unsubscribe_throws_when_lookup_rejected:
  assumes "getCurrentSubscription env w = (Threw, w1)"
  shows "unsubscribe env w = (Threw, w1) \<and> page w1 = page w \<and>
         filter is_fetch (events w1) = filter is_fetch (events w)"
proof -
  from getCurrentSubscription_frame [OF assms] obtain evs where
    f: "page w1 = page w" "events w1 = events w @ evs"
      "set evs \<subseteq> insert PM_getSubscription lookup_events"
    by blast
  have "unsubscribe env w = (Threw, w1)"
    using assms by (simp add: unsubscribe_def and_then_def)
  with f filter_lookup_events [OF f(3)] show ?thesis by simp
qed

lemma unsubscribe_throws_when_revocation_rejected:
  assumes "getCurrentSubscription env w = (Returned (Some json), w1)"
    and "sub_unsubscribe_outcome env = Rejected"
  shows "unsubscribe env w = (Threw, w1\<lparr>events := events w1 @ [Sub_unsubscribe]\<rparr>) \<and>
         page w1 = page w \<and>
         filter is_fetch (events w1 @ [Sub_unsubscribe]) = filter is_fetch (events w)"
proof -
  from getCurrentSubscription_frame [OF assms(1)] obtain evs where
    f: "page w1 = page w" "events w1 = events w @ evs"
      "set evs \<subseteq> insert PM_getSubscription lookup_events"
    by blast
  have "unsubscribe env w = (Threw, w1\<lparr>events := events w1 @ [Sub_unsubscribe]\<rparr>)"
    using assms by (simp add: unsubscribe_def and_then_def await_def)
  with f filter_lookup_events [OF f(3)] show ?thesis by simp
qed

lemma unsubscribe_hangs_with_lookup:
  assumes "getCurrentSubscription env w = (Hangs, w1)"
  shows "unsubscribe env w = (Hangs, w1) \<and> page w1 = page w"
proof -
  from getCurrentSubscription_frame [OF assms] have "page w1 = page w"
    by blast
  moreover have "unsubscribe env w = (Hangs, w1)"
    using assms by (simp add: unsubscribe_def and_then_def)
  ultimately show ?thesis by simp
qed

text \<open>
  Claim C5, as the code has it. Let the lookup of the current subscription complete; it
  changes nothing on the page, revokes nothing and sends no request. If there is no
  subscription, \<open>unsubscribe\<close> does nothing more than render \<open>prompt\<close>, and returns. If
  there is one, and the platform fulfils the revocation, and the DELETE request is
  answered or fails, then \<open>unsubscribe\<close> has revoked the subscription, sent the request
  with the subscription's endpoint and keys, rendered \<open>prompt\<close>, and returns. If the
  platform rejects the revocation, or the lookup is rejected, \<open>unsubscribe\<close> throws there
  and the page is not rendered; if the lookup never settles, \<open>unsubscribe\<close> never returns.
\<close>

theorem unsubscribe_ends_in_prompt:
  "case getCurrentSubscription env w of
     (Returned sub, w1) \<Rightarrow>
       page w1 = page w \<and>
       filter is_fetch (events w1) = filter is_fetch (events w) \<and>
       filter (\<lambda>e. e = Sub_unsubscribe) (events w1) =
         filter (\<lambda>e. e = Sub_unsubscribe) (events w) \<and>
       (sub = None \<longrightarrow> unsubscribe env w = (Returned (), render ''prompt'' w1)) \<and>
       (\<forall>json b. sub = Some json \<and> sub_unsubscribe_outcome env = Fulfilled b \<and>
          fetch_unsubscribe_outcome env \<noteq> Never \<longrightarrow>
          unsubscribe env w =
            (Returned (),
             render ''prompt''
               (w1\<lparr>events := events w1 @
                      [Sub_unsubscribe, Fetch ''DELETE'' ''/api/push/unsubscribe'' json]\<rparr>))) \<and>
       (\<forall>json. sub = Some json \<and> sub_unsubscribe_outcome env = Rejected \<longrightarrow>
          unsubscribe env w = (Threw, w1\<lparr>events := events w1 @ [Sub_unsubscribe]\<rparr>))
   | (Threw, w1) \<Rightarrow>
       unsubscribe env w = (Threw, w1) \<and> page w1 = page w \<and>
       filter is_fetch (events w1) = filter is_fetch (events w)
   | (Hangs, w1) \<Rightarrow>
       unsubscribe env w = (Hangs, w1) \<and> page w1 = page w"
proof -
  obtain r w1 where g: "getCurrentSubscription env w = (r, w1)"
    by (cases "getCurrentSubscription env w")
  show ?thesis
  proof (cases r)
    case (Returned sub)
    with g have l: "getCurrentSubscription env w = (Returned sub, w1)" by simp
    have "\<forall>json. sub = Some json \<and> sub_unsubscribe_outcome env = Rejected \<longrightarrow>
        unsubscribe env w = (Threw, w1\<lparr>events := events w1 @ [Sub_unsubscribe]\<rparr>)"
      using l unsubscribe_throws_when_revocation_rejected [of env w _ w1] by blast
    with unsubscribe_after_lookup [OF l] show ?thesis
      by (simp only: l prod.case completion.case) blast
  next
    case Threw
    with g have l: "getCurrentSubscription env w = (Threw, w1)" by simp
    from unsubscribe_throws_when_lookup_rejected [OF l] show ?thesis
      by (simp only: l prod.case completion.case)
  next
    case Hangs
    with g have l: "getCurrentSubscription env w = (Hangs, w1)" by simp
    from unsubscribe_hangs_with_lookup [OF l] show ?thesis
      by (simp only: l prod.case completion.case)
  qed
qed

theorem unsubscribe_ends_in_prompt_witness:
  "unsubscribe not_subscribed sample_world =
     (Returned (),
      \<lparr>page = updateUI ''prompt'' sample_push_page,
       events = [SW_getRegistrations, SW_ready, PM_getSubscription]\<rparr>) \<and>
   unsubscribe sample_platform sample_world =
     (Returned (),
      \<lparr>page = updateUI ''prompt'' sample_push_page,
       events = [SW_getRegistrations, SW_ready, PM_getSubscription, Sub_unsubscribe,
                 Fetch ''DELETE'' ''/api/push/unsubscribe'' sample_subscription]\<rparr>)"
proof -
  let ?w1 = "\<lparr>page = sample_push_page,
              events = [SW_getRegistrations, SW_ready, PM_getSubscription]\<rparr>"
  have a: "getCurrentSubscription not_subscribed sample_world = (Returned None, ?w1)"
    by (simp add: getCurrentSubscription_def getRegistration_def and_then_def await_def
        not_subscribed_def sample_platform_def sample_world_def)
  have b: "getCurrentSubscription sample_platform sample_world =
      (Returned (Some sample_subscription), ?w1)"
    by (simp add: getCurrentSubscription_def getRegistration_def and_then_def await_def
        sample_platform_def sample_world_def)
  have c: "sub_unsubscribe_outcome sample_platform = Fulfilled True"
    "fetch_unsubscribe_outcome sample_platform \<noteq> Never"
    by (simp_all add: sample_platform_def)
  from unsubscribe_ends_in_prompt [where env = not_subscribed and w = sample_world]
  have first: "unsubscribe not_subscribed sample_world = (Returned (), render ''prompt'' ?w1)"
    by (simp only: a prod.case completion.case, blast?)
  from unsubscribe_ends_in_prompt [where env = sample_platform and w = sample_world] c
  have second: "unsubscribe sample_platform sample_world =
      (Returned (),
       render ''prompt''
         (?w1\<lparr>events := events ?w1 @
                 [Sub_unsubscribe, Fetch ''DELETE'' ''/api/push/unsubscribe'' sample_subscription]\<rparr>))"
    by (simp only: b prod.case completion.case, blast?)
  from first second show ?thesis by (simp add: render_def)
qed

text \<open>
  The claim as the spec words it fails where the platform rejects the revocation:
  \<open>unsubscribe\<close> throws, and the page is not rendered as \<open>prompt\<close>.
\<close>

theorem unsubscribe_revocation_rejected:
  "getSubscription_outcome revocation_fails = Fulfilled (Some sample_subscription) \<and>
   fst (unsubscribe revocation_fails sample_world) = Threw \<and>
   page (snd (unsubscribe revocation_fails sample_world)) = sample_push_page \<and>
   sample_push_page \<noteq> updateUI ''prompt'' sample_push_page"
  by (simp add: unsubscribe_def getCurrentSubscription_def getRegistration_def and_then_def
      await_def revocation_fails_def sample_platform_def sample_world_def updateUI_def
      set_status_def sample_push_page_def sample_button_def)

section \<open>Properties of the service worker\<close>

text \<open>
  Claim C7. When the payload of a push event is not JSON, the worker still shows a
  notification: its title is the default \<open>FinLife\<close>, its body is the text of the payload
  and its target URL is \<open>/\<close>. The payload \<open>Hello\<close> is such a case.
\<close>

theorem push_shows_plain_text:
  assumes "pd_json d = None"
  shows "push (Some d) =
           Inr (Some \<lparr>n_title = JStr ''FinLife'', n_body = JStr (pd_text d),
                      n_icon = ''/static/icons/icon-192.svg'',
                      n_badge = ''/static/icons/icon-192.svg'',
                      n_data_url = JStr ''/''\<rparr>)"
  using assms by (simp add: push_def or_else_def)

theorem push_shows_plain_text_witness:
  "push (Some hello) =
     Inr (Some \<lparr>n_title = JStr ''FinLife'', n_body = JStr ''Hello'',
                n_icon = ''/static/icons/icon-192.svg'',
                n_badge = ''/static/icons/icon-192.svg'',
                n_data_url = JStr ''/''\<rparr>)"
  using push_shows_plain_text [of hello] by (simp add: hello_def)

text \<open>\<open>indexOf\<close> finds the pattern exactly when the string contains it.\<close>

lemma index_from_found: "index_from i s pat \<noteq> - 1 \<longleftrightarrow> sublist pat s"
proof (induction s arbitrary: i)
  case Nil
  then show ?case by simp
next
  case (Cons c cs)
  show ?case
  proof (cases "prefix pat (c # cs)")
    case True
    then show ?thesis by (simp add: prefix_imp_sublist)
  next
    case False
    then have "sublist pat (c # cs) \<longleftrightarrow> sublist pat cs"
      by (simp add: sublist_Cons_right)
    with False Cons.IH [of "Suc i"] show ?thesis by simp
  qed
qed

lemma matches_iff_contains:
  "matches url client \<longleftrightarrow> sublist url (client_url client) \<and> focus_in_client client"
  by (simp add: matches_def indexOf_def index_from_found)

lemma focus_or_open_none:
  "\<forall>c\<in>set cs. \<not> matches url c \<Longrightarrow> focus_or_open url i cs = Clients_openWindow url"
  by (induction cs arbitrary: i) auto

lemma focus_or_open_first:
  "\<exists>c\<in>set cs. matches url c \<Longrightarrow>
   \<exists>k<length cs. matches url (cs ! k) \<and> (\<forall>j<k. \<not> matches url (cs ! j)) \<and>
     focus_or_open url i cs = Client_focus (i + k)"
proof (induction cs arbitrary: i)
  case Nil
  then show ?case by simp
next
  case (Cons c cs)
  show ?case
  proof (cases "matches url c")
    case True
    then have "matches url ((c # cs) ! 0) \<and> (\<forall>j<0. \<not> matches url ((c # cs) ! j)) \<and>
        focus_or_open url i (c # cs) = Client_focus (i + 0)"
      by simp
    then show ?thesis by blast
  next
    case False
    with Cons.prems have "\<exists>c\<in>set cs. matches url c" by simp
    from Cons.IH [OF this, of "Suc i"] obtain k where k: "k < length cs" "matches url (cs ! k)"
      "\<forall>j<k. \<not> matches url (cs ! j)" "focus_or_open url (Suc i) cs = Client_focus (Suc i + k)"
      by blast
    have "\<forall>j<Suc k. \<not> matches url ((c # cs) ! j)"
    proof (intro allI impI)
      fix j assume "j < Suc k"
      then show "\<not> matches url ((c # cs) ! j)"
        using False k(3) by (cases j) auto
    qed
    with False k have "Suc k < length (c # cs) \<and> matches url ((c # cs) ! Suc k) \<and>
        (\<forall>j<Suc k. \<not> matches url ((c # cs) ! j)) \<and>
        focus_or_open url i (c # cs) = Client_focus (i + Suc k)"
      by simp
    then show ?thesis by blast
  qed
qed

text \<open>
  Claim C8. A client matches when its URL contains the target URL of the notification
  and it can be focused. On a click the notification is closed; if some open window
  matches, the first one that does is focused and no window is opened; if none matches,
  one window is opened at the target URL and none is focused.
\<close>

theorem notificationclick_focuses_or_opens:
  "((\<exists>c\<in>set cs. matches (target_url data) c) \<longrightarrow>
      (\<exists>k<length cs. matches (target_url data) (cs ! k) \<and>
         (\<forall>j<k. \<not> matches (target_url data) (cs ! j)) \<and>
         notificationclick data cs = [Notification_close, Client_focus k])) \<and>
   ((\<forall>c\<in>set cs. \<not> matches (target_url data) c) \<longrightarrow>
      notificationclick data cs = [Notification_close, Clients_openWindow (target_url data)])"
  using focus_or_open_first [of cs "target_url data" 0]
    focus_or_open_none [of cs "target_url data" 0]
  by (simp add: notificationclick_def)

theorem notificationclick_focuses_or_opens_witness:
  "notificationclick (Some tasks_data) sample_clients = [Notification_close, Client_focus 1] \<and>
   notificationclick (Some tasks_data) [hd sample_clients] =
     [Notification_close, Clients_openWindow ''/tasks'']"
proof -
  have t: "target_url (Some tasks_data) = ''/tasks''"
    by (simp add: target_url_def tasks_data_def)
  have m0: "\<not> matches ''/tasks'' (sample_clients ! 0)"
    by (simp add: matches_def indexOf_def sample_clients_def)
  have m1: "matches ''/tasks'' (sample_clients ! 1)"
    by (simp add: matches_def indexOf_def sample_clients_def)
  have len: "length sample_clients = 3"
    by (simp add: sample_clients_def)
  have ex: "\<exists>c\<in>set sample_clients. matches (target_url (Some tasks_data)) c"
    unfolding t using m1 len by (metis nth_mem one_less_numeral_iff semiring_norm(77))
  from notificationclick_focuses_or_opens [of sample_clients "Some tasks_data"] ex
  obtain k where k: "k < length sample_clients" "matches ''/tasks'' (sample_clients ! k)"
    "\<forall>j<k. \<not> matches ''/tasks'' (sample_clients ! j)"
    "notificationclick (Some tasks_data) sample_clients = [Notification_close, Client_focus k]"
    unfolding t by blast
  have "k = 1"
  proof -
    have "\<not> 1 < k" using k(3) m1 by blast
    moreover have "k \<noteq> 0"
    proof
      assume "k = 0"
      with k(2) m0 show False by simp
    qed
    ultimately show ?thesis by simp
  qed
  with k(4) have first: "notificationclick (Some tasks_data) sample_clients =
      [Notification_close, Client_focus 1]"
    by simp
  have none: "\<forall>c\<in>set [hd sample_clients]. \<not> matches (target_url (Some tasks_data)) c"
    unfolding t using m0 by (simp add: sample_clients_def)
  from notificationclick_focuses_or_opens [of "[hd sample_clients]" "Some tasks_data"] none
  have "notificationclick (Some tasks_data) [hd sample_clients] =
      [Notification_close, Clients_openWindow ''/tasks'']"
    unfolding t by blast
  with first show ?thesis by simp
qed

end
